theory Spec2Isabelle
  imports Main
begin

section \<open>Strings of the JavaScript runtime\<close>

text \<open>
  A JavaScript string is a sequence of UTF-16 code units. The strings that
  \<^verbatim>\<open>sendMetrics\<close> and \<^verbatim>\<open>sendEvents\<close> handle are of type
  \<^typ>\<open>string\<close>, each \<^typ>\<open>char\<close> standing for one code unit below 256
  (ASCII and the Latin-1 supplement), and the built-in string operations that
  \<^verbatim>\<open>src/dynatrace.ts\<close> calls are written out on that range. The key
  sanitizer is given on every string of code units as well, further down.
\<close>

definition code_unit :: "char \<Rightarrow> nat" where
  "code_unit c = of_char c"

text \<open>
  \<^verbatim>\<open>String.prototype.toLowerCase\<close>: \<open>A\<close>..\<open>Z\<close> and the Latin-1 capitals
  (U+00C0..U+00DE without the multiplication sign U+00D7) move up by 32,
  every other code unit below 256 is its own lower case.
\<close>

definition toLowerCase_unit :: "char \<Rightarrow> char" where
  "toLowerCase_unit c =
     (let n = code_unit c in
      if (65 \<le> n \<and> n \<le> 90) \<or> (192 \<le> n \<and> n \<le> 214) \<or> (216 \<le> n \<and> n \<le> 222)
      then char_of (n + 32) else c)"

definition toLowerCase :: "string \<Rightarrow> string" where
  "toLowerCase s = map toLowerCase_unit s"

text \<open>
  The regular expression \<^verbatim>\<open>/[^.0-9a-z_-]/gi\<close>. The members of the class
  \<^verbatim>\<open>[.0-9a-z_-]\<close> are listed in \<open>class_members\<close>. Under the flag \<^verbatim>\<open>i\<close>
  (without \<^verbatim>\<open>u\<close>) a code unit belongs to the class when its canonical form is
  the canonical form of a member; the canonical form is the upper case, except
  that a code unit from 128 on is never mapped below 128. The members are all
  below 128, so only the canonical form of the ASCII range decides, and the
  code units from 128 on are left as they are.
\<close>

definition class_members :: "string" where
  "class_members = ''.0123456789abcdefghijklmnopqrstuvwxyz_-''"

definition canonicalize :: "char \<Rightarrow> char" where
  "canonicalize c =
     (let n = code_unit c in if 97 \<le> n \<and> n \<le> 122 then char_of (n - 32) else c)"

definition class_matches_i :: "char \<Rightarrow> bool" where
  "class_matches_i c \<longleftrightarrow> canonicalize c \<in> set (map canonicalize class_members)"

text \<open>
  \<^verbatim>\<open>s.replace(/[^.0-9a-z_-]/gi, '_')\<close>: with the flag \<^verbatim>\<open>g\<close> every match is
  replaced; a match of the negated class is one code unit outside the class.
\<close>

definition replace_outside_class :: "string \<Rightarrow> string" where
  "replace_outside_class s = map (\<lambda>c. if \<not> class_matches_i c then CHR ''_'' else c) s"

text \<open>
  \<^verbatim>\<open>String.prototype.split\<close> with a one-unit separator: the pieces between the
  separators, in order; a string without the separator (the empty string too)
  is one piece.
\<close>

fun split :: "char \<Rightarrow> string \<Rightarrow> string list" where
  "split sep [] = [[]]"
| "split sep (c # cs) =
     (if c = sep then [] # split sep cs
      else (let r = split sep cs in (c # hd r) # tl r))"

text \<open>The decimal text of a number, as a template literal prints an array length.\<close>

function Number_toString :: "nat \<Rightarrow> string" where
  "Number_toString n =
     (if n < 10 then [char_of (48 + n)]
      else Number_toString (n div 10) @ [char_of (48 + n mod 10)])"
  by pat_completeness auto
termination
  by (relation "measure id") auto

section \<open>The records of \<^verbatim>\<open>src/dynatrace.ts\<close>\<close>

text \<open>
  The optional \<^verbatim>\<open>dimensions\<close> object is the list of its own enumerable
  properties in property order, which is what \<^verbatim>\<open>Object.entries\<close> returns and
  what \<^verbatim>\<open>JSON.stringify\<close> prints.
\<close>

type_synonym dimensions = "(string \<times> string) list"

record Metric =
  metric :: string
  "value" :: string
  dimensions :: "dimensions option"

definition Object_entries :: "dimensions \<Rightarrow> (string \<times> string) list" where
  "Object_entries d = d"

section \<open>Key sanitizers\<close>

definition safeMetricKey :: "string \<Rightarrow> string" where
  "safeMetricKey mkey = replace_outside_class (toLowerCase mkey)"

definition safeDimKey :: "string \<Rightarrow> string" where
  "safeDimKey dkey = replace_outside_class (toLowerCase dkey)"

definition safeDimValue :: "string \<Rightarrow> string" where
  "safeDimValue val = val"

section \<open>The sanitizer on every string\<close>

text \<open>
  The strings above are the ones whose code units are below 256. For the key
  sanitizer the operations are written out once more on every string: a list
  of UTF-16 code units, each a natural number.

  \<^verbatim>\<open>String.prototype.toLowerCase\<close> maps the code points of the string to
  their Unicode lower case, which may have more than one code unit and may
  depend on the neighbours (the final sigma). What it gives at a position that
  holds an ASCII code unit is fixed: \<open>A\<close>..\<open>Z\<close> move up by 32, every other one
  stays. Two code points outside ASCII have ASCII code units in their lower
  case, U+0130 (\<open>i\<close> and U+0307) and the Kelvin sign U+212A (\<open>k\<close>); they are
  written out. For every other position the code units come from the Unicode
  tables of the runtime: \<open>other s i\<close> is what the lower case of the string \<open>s\<close>
  has for position \<open>i\<close> (for a surrogate pair, one code unit of the lower-case
  pair at each of its two positions).
\<close>

type_synonym utf16 = "nat list"

definition toLowerCase_at :: "(utf16 \<Rightarrow> nat \<Rightarrow> utf16) \<Rightarrow> utf16 \<Rightarrow> nat \<Rightarrow> nat \<Rightarrow> utf16" where
  "toLowerCase_at other s i c =
     (if c < 128 then [if 65 \<le> c \<and> c \<le> 90 then c + 32 else c]
      else if c = 0x130 then [0x69, 0x307]
      else if c = 0x212A then [0x6B]
      else other s i)"

fun toLowerCase_from :: "(utf16 \<Rightarrow> nat \<Rightarrow> utf16) \<Rightarrow> utf16 \<Rightarrow> nat \<Rightarrow> utf16 \<Rightarrow> utf16" where
  "toLowerCase_from other s i [] = []"
| "toLowerCase_from other s i (c # cs) =
     toLowerCase_at other s i c @ toLowerCase_from other s (Suc i) cs"

definition toLowerCase_utf16 :: "(utf16 \<Rightarrow> nat \<Rightarrow> utf16) \<Rightarrow> utf16 \<Rightarrow> utf16" where
  "toLowerCase_utf16 other s = toLowerCase_from other s 0 s"

text \<open>
  The canonical form of a code unit under the flag \<^verbatim>\<open>i\<close> without \<^verbatim>\<open>u\<close>, as
  ECMAScript defines it: take the upper case of the code unit; if that is not
  exactly one code unit, the code unit stays; if the code unit is 128 or more
  and its upper case is below 128, the code unit stays; else it becomes its
  upper case. The upper case of an ASCII code unit is fixed; \<open>upper\<close> is the
  upper case that the Unicode tables of the runtime give any other code unit.
\<close>

definition canonicalize_utf16 :: "(nat \<Rightarrow> utf16) \<Rightarrow> nat \<Rightarrow> nat" where
  "canonicalize_utf16 upper ch =
     (let u = (if ch < 128 then [if 97 \<le> ch \<and> ch \<le> 122 then ch - 32 else ch] else upper ch)
      in if length u \<noteq> 1 then ch
         else (let cu = hd u in if 128 \<le> ch \<and> cu < 128 then ch else cu))"

definition class_matches_i_utf16 :: "(nat \<Rightarrow> utf16) \<Rightarrow> nat \<Rightarrow> bool" where
  "class_matches_i_utf16 upper c \<longleftrightarrow>
     canonicalize_utf16 upper c
       \<in> set (map (canonicalize_utf16 upper) (map code_unit class_members))"

definition replace_outside_class_utf16 :: "(nat \<Rightarrow> utf16) \<Rightarrow> utf16 \<Rightarrow> utf16" where
  "replace_outside_class_utf16 upper s =
     map (\<lambda>c. if \<not> class_matches_i_utf16 upper c then code_unit (CHR ''_'') else c) s"

definition safeMetricKey_utf16 :: "(utf16 \<Rightarrow> nat \<Rightarrow> utf16) \<Rightarrow> (nat \<Rightarrow> utf16) \<Rightarrow> utf16 \<Rightarrow> utf16" where
  "safeMetricKey_utf16 other upper mkey =
     replace_outside_class_utf16 upper (toLowerCase_utf16 other mkey)"

section \<open>The body-building loop of \<^verbatim>\<open>sendMetrics\<close>\<close>

text \<open>
  The inner loop over \<^verbatim>\<open>Object.entries(m.dimensions)\<close>, with the variable
  \<^verbatim>\<open>lines\<close> as accumulator. The test \<^verbatim>\<open>value && value.length > 0\<close> holds for
  the non-empty strings.
\<close>

fun dimensions_loop :: "string \<Rightarrow> (string \<times> string) list \<Rightarrow> string" where
  "dimensions_loop lines [] = lines"
| "dimensions_loop lines ((k, v) # kvs) =
     (if v \<noteq> [] \<and> length v > 0
      then dimensions_loop
             (lines @ '','' @ safeDimKey k @ [CHR ''='', CHR 0x22] @ safeDimValue v @ [CHR 0x22]) kvs
      else dimensions_loop lines kvs)"

fun metrics_loop :: "string \<Rightarrow> Metric list \<Rightarrow> string" where
  "metrics_loop lines [] = lines"
| "metrics_loop lines (m # ms) =
     (let lines1 = lines @ safeMetricKey (metric m);
          lines2 = (case dimensions m of
                      None \<Rightarrow> lines1
                    | Some d \<Rightarrow> dimensions_loop lines1 (Object_entries d))
      in metrics_loop (lines2 @ '' '' @ value m @ [CHR 0x0A]) ms)"

section \<open>Values, the HTTP client and the trace of effects\<close>

text \<open>
  The objects that \<^verbatim>\<open>sendEvents\<close> builds with object literals are JavaScript
  values: an object is the list of its properties, name and value, in the order
  of the literal. \<open>property\<close> reads a property; a missing one reads \<open>Undefined\<close>.
\<close>

datatype js_value =
  Undefined
  | Str string
  | Arr "js_value list"
  | Obj "(string \<times> js_value) list"

fun property :: "js_value \<Rightarrow> string \<Rightarrow> js_value" where
  "property (Obj ps) name = (case map_of ps name of Some v \<Rightarrow> v | None \<Rightarrow> Undefined)"
| "property _ name = Undefined"

fun property_names :: "js_value \<Rightarrow> string list" where
  "property_names (Obj ps) = map fst ps"
| "property_names _ = []"

text \<open>The optional fields of an \<^verbatim>\<open>Event\<close>, read as values.\<close>

definition optional_string :: "string option \<Rightarrow> js_value" where
  "optional_string x = (case x of None \<Rightarrow> Undefined | Some s \<Rightarrow> Str s)"

definition optional_strings :: "string list option \<Rightarrow> js_value" where
  "optional_strings x = (case x of None \<Rightarrow> Undefined | Some ss \<Rightarrow> Arr (map Str ss))"

definition optional_dimensions :: "dimensions option \<Rightarrow> js_value" where
  "optional_dimensions x =
     (case x of None \<Rightarrow> Undefined | Some d \<Rightarrow> Obj (map (\<lambda>(k, v). (k, Str v)) d))"

record Event =
  type :: string
  source :: string
  title :: "string option"
  description :: "string option"
  deploymentName :: "string option"
  deploymentVersion :: "string option"
  deploymentProject :: "string option"
  remediationAction :: "string option"
  ciBackLink :: "string option"
  entities :: "string list option"
  tags :: "string list option"
  dimensions_e :: "dimensions option"

text \<open>
  An exception is a value. The client of \<^verbatim>\<open>@actions/http-client\<close> is outside
  the repository: a call of \<^verbatim>\<open>post\<close> either resolves to a response, whose
  message carries an optional status code and an optional status message, or
  throws.
\<close>

datatype js_error = Error string

datatype IncomingMessage =
  IncomingMessage (statusCode: "nat option") (statusMessage: "string option")

datatype http_outcome = Responds IncomingMessage | Throws js_error

record HttpClient =
  userAgent :: string
  headers :: "(string \<times> string) list"

record request =
  verb :: string
  requestUrl :: string
  requestHeaders :: "(string \<times> string) list"
  data :: string

text \<open>
  The trace lists what a run does, in the order it does it: the lines given to
  \<^verbatim>\<open>core.info\<close> and \<^verbatim>\<open>core.error\<close>, and every awaited \<^verbatim>\<open>post\<close> with
  the outcome it completed with. The server is any function from the trace so
  far and the request to the outcome.
\<close>

datatype io = Info string | ErrorLog js_error | Post request http_outcome

type_synonym trace = "io list"

type_synonym server = "trace \<Rightarrow> request \<Rightarrow> http_outcome"

definition core_info :: "string \<Rightarrow> trace \<Rightarrow> trace" where
  "core_info message w = w @ [Info message]"

definition core_error :: "js_error \<Rightarrow> trace \<Rightarrow> trace" where
  "core_error ex w = w @ [ErrorLog ex]"

definition getClient :: "string \<Rightarrow> string \<Rightarrow> HttpClient" where
  "getClient token content =
     \<lparr>userAgent = ''dt-http-client'',
      headers = [(''Authorization'', ''Api-Token '' @ token), (''Content-Type'', content)]\<rparr>"

definition post :: "server \<Rightarrow> HttpClient \<Rightarrow> string \<Rightarrow> string \<Rightarrow> trace
    \<Rightarrow> (js_error + IncomingMessage) \<times> trace" where
  "post srv http url body w =
     (let req = \<lparr>verb = ''POST'', requestUrl = url, requestHeaders = headers http, data = body\<rparr>;
          outcome = srv w req;
          w' = w @ [Post req outcome]
      in case outcome of
           Throws ex \<Rightarrow> (Inl ex, w')
         | Responds message \<Rightarrow> (Inr message, w'))"

text \<open>A template literal prints an absent value as \<^verbatim>\<open>undefined\<close>.\<close>

definition template_text :: "string option \<Rightarrow> string" where
  "template_text x = (case x of None \<Rightarrow> ''undefined'' | Some s \<Rightarrow> s)"

text \<open>
  The body of the \<^verbatim>\<open>try\<close> statement, the same in \<^verbatim>\<open>sendMetrics\<close> and in
  \<^verbatim>\<open>sendEvents\<close>: await the \<^verbatim>\<open>post\<close>, then throw when the status code is
  undefined or at least 400. \<open>Inl\<close> is the exception that reaches the
  \<^verbatim>\<open>catch\<close> clause.
\<close>

definition try_post :: "server \<Rightarrow> HttpClient \<Rightarrow> string \<Rightarrow> string \<Rightarrow> trace
    \<Rightarrow> (js_error + unit) \<times> trace" where
  "try_post srv http url body w =
     (case post srv http url body w of
        (Inl ex, w') \<Rightarrow> (Inl ex, w')
      | (Inr message, w') \<Rightarrow>
          (if statusCode message = None \<or>
              (case statusCode message of Some c \<Rightarrow> c \<ge> 400 | None \<Rightarrow> False)
           then (Inl (Error (''HTTP request failed: '' @ template_text (statusMessage message))), w')
           else (Inr (), w')))"

text \<open>
  The \<^verbatim>\<open>catch\<close> clause: the exception goes to \<^verbatim>\<open>core.error\<close> and is not
  thrown again.
\<close>

definition catch_log :: "(js_error + unit) \<times> trace \<Rightarrow> js_error + trace" where
  "catch_log r = (case r of (Inl ex, w) \<Rightarrow> Inr (core_error ex w) | (Inr _, w) \<Rightarrow> Inr w)"

section \<open>\<^verbatim>\<open>sendMetrics\<close>\<close>

definition sendMetrics :: "server \<Rightarrow> string \<Rightarrow> string \<Rightarrow> Metric list \<Rightarrow> trace
    \<Rightarrow> js_error + trace" where
  "sendMetrics srv url token metrics w =
     (let w1 = core_info (''Sending '' @ Number_toString (length metrics) @ '' metrics'') w;
          http = getClient token ''text/plain'';
          lines = metrics_loop '''' metrics;
          w2 = core_info lines w1
      in catch_log (try_post srv http (url @ ''/api/v2/metrics/ingest'') lines w2))"

section \<open>\<^verbatim>\<open>sendEvents\<close>\<close>

text \<open>
  The loop over \<^verbatim>\<open>e.tags\<close>, with the array \<^verbatim>\<open>tagAttachRules\<close> as
  accumulator; \<^verbatim>\<open>push\<close> appends at the end.
\<close>

fun tag_rules_loop :: "js_value list \<Rightarrow> string list \<Rightarrow> js_value list" where
  "tag_rules_loop tagAttachRules [] = tagAttachRules"
| "tag_rules_loop tagAttachRules (t # ts) =
     (let arr = split (CHR '':'') t in
      if length arr = 2 then
        tag_rules_loop
          (tagAttachRules @
             [Obj [(''meTypes'', Arr [Str (arr ! 0)]),
                   (''tags'', Arr [Obj [(''context'', Str ''CONTEXTLESS''),
                                        (''key'', Str (arr ! 1))]])]]) ts
      else if length arr = 3 then
        tag_rules_loop
          (tagAttachRules @
             [Obj [(''meTypes'', Arr [Str (arr ! 0)]),
                   (''tags'', Arr [Obj [(''context'', Str ''CONTEXTLESS''),
                                        (''key'', Str (arr ! 1)),
                                        (''value'', Str (arr ! 2))]])]]) ts
      else tag_rules_loop tagAttachRules ts)"

definition extract_tagging_rules :: "Event \<Rightarrow> js_value list" where
  "extract_tagging_rules e =
     (case tags e of None \<Rightarrow> [] | Some ts \<Rightarrow> tag_rules_loop [] ts)"

text \<open>
  The classification by \<^verbatim>\<open>e.type\<close>: the line given to \<^verbatim>\<open>core.info\<close>, the
  variable \<^verbatim>\<open>payload\<close> and the flag \<^verbatim>\<open>send\<close>.
\<close>

definition create_event_structure :: "Event \<Rightarrow> js_value list \<Rightarrow> string \<times> js_value \<times> bool" where
  "create_event_structure e tagAttachRules =
     (if type e = ''CUSTOM_INFO'' \<or> type e = ''AVAILABILITY_EVENT'' \<or> type e = ''ERROR_EVENT'' \<or>
         type e = ''PERFORMANCE_EVENT'' \<or> type e = ''RESOURCE_CONTENTION''
      then (''Preparing a standard event'',
            Obj [(''eventType'', Str (type e)),
                 (''attachRules'', Obj [(''entityIds'', optional_strings (entities e)),
                                        (''tagRule'', Arr tagAttachRules)]),
                 (''source'', Str (source e)),
                 (''description'', optional_string (description e)),
                 (''title'', optional_string (title e)),
                 (''customProperties'', optional_dimensions (dimensions_e e))],
            True)
      else if type e = ''CUSTOM_DEPLOYMENT''
      then (''Preparing a custom deployment event'',
            Obj [(''eventType'', Str (type e)),
                 (''attachRules'', Obj [(''entityIds'', optional_strings (entities e)),
                                        (''tagRule'', Arr tagAttachRules)]),
                 (''source'', Str (source e)),
                 (''deploymentName'', optional_string (deploymentName e)),
                 (''deploymentVersion'', optional_string (deploymentVersion e)),
                 (''deploymentProject'', optional_string (deploymentProject e)),
                 (''remediationAction'', optional_string (remediationAction e)),
                 (''ciBackLink'', optional_string (ciBackLink e)),
                 (''customProperties'', optional_dimensions (dimensions_e e))],
            True)
      else (''Unsupported event type!'', Undefined, False))"

text \<open>
  One turn of the loop over the events. \<^verbatim>\<open>JSON.stringify\<close> belongs to the
  runtime and is a parameter.
\<close>

definition send_event :: "(js_value \<Rightarrow> string) \<Rightarrow> server \<Rightarrow> string \<Rightarrow> HttpClient \<Rightarrow> Event
    \<Rightarrow> trace \<Rightarrow> js_error + trace" where
  "send_event JSON_stringify srv url http e w =
     (let tagAttachRules = extract_tagging_rules e;
          (message, payload, send) = create_event_structure e tagAttachRules;
          w1 = core_info message w
      in if send then
           (let w2 = core_info (JSON_stringify payload) w1
            in catch_log
                 (try_post srv http (url @ ''/api/v1/events'') (JSON_stringify payload) w2))
         else Inr w1)"

fun events_loop :: "(js_value \<Rightarrow> string) \<Rightarrow> server \<Rightarrow> string \<Rightarrow> HttpClient \<Rightarrow> Event list
    \<Rightarrow> trace \<Rightarrow> js_error + trace" where
  "events_loop JSON_stringify srv url http [] w = Inr w"
| "events_loop JSON_stringify srv url http (e # es) w =
     (case send_event JSON_stringify srv url http e w of
        Inl ex \<Rightarrow> Inl ex
      | Inr w' \<Rightarrow> events_loop JSON_stringify srv url http es w')"

definition sendEvents :: "(js_value \<Rightarrow> string) \<Rightarrow> server \<Rightarrow> string \<Rightarrow> string \<Rightarrow> Event list
    \<Rightarrow> trace \<Rightarrow> js_error + trace" where
  "sendEvents JSON_stringify srv url token events w =
     (let w1 = core_info (''Sending '' @ Number_toString (length events) @ '' events'') w;
          http = getClient token ''application/json''
      in events_loop JSON_stringify srv url http events w1)"

section \<open>Observations on traces and events\<close>

text \<open>
  What the statements below observe: the requests of a trace in order, whether
  an outcome counts as a failed delivery (a thrown error, no status code, or a
  status code of at least 400), whether every failed delivery in a trace is
  followed by its line of \<^verbatim>\<open>core.error\<close>, the payload and the flag that the
  classification gives an event, and the request that a client made by
  \<open>getClient\<close> sends.
\<close>

fun posts :: "trace \<Rightarrow> request list" where
  "posts [] = []"
| "posts (Post req outcome # w) = req # posts w"
| "posts (_ # w) = posts w"

definition delivery_failed :: "http_outcome \<Rightarrow> bool" where
  "delivery_failed outcome =
     (case outcome of
        Throws ex \<Rightarrow> True
      | Responds message \<Rightarrow>
          (case statusCode message of None \<Rightarrow> True | Some c \<Rightarrow> c \<ge> 400))"

fun failures_logged :: "trace \<Rightarrow> bool" where
  "failures_logged [] = True"
| "failures_logged (Post req outcome # w) =
     (if delivery_failed outcome
      then (case w of ErrorLog ex # w' \<Rightarrow> failures_logged w' | _ \<Rightarrow> False)
      else failures_logged w)"
| "failures_logged (_ # w) = failures_logged w"

definition event_payload :: "Event \<Rightarrow> js_value" where
  "event_payload e = fst (snd (create_event_structure e (extract_tagging_rules e)))"

definition event_send :: "Event \<Rightarrow> bool" where
  "event_send e = snd (snd (create_event_structure e (extract_tagging_rules e)))"

definition post_request :: "string \<Rightarrow> string \<Rightarrow> string \<Rightarrow> string \<Rightarrow> request" where
  "post_request url token content body =
     \<lparr>verb = ''POST'', requestUrl = url,
      requestHeaders = [(''Authorization'', ''Api-Token '' @ token), (''Content-Type'', content)],
      data = body\<rparr>"

section \<open>The events of the build-test workflow\<close>

text \<open>
  Events after the workflow of the repository, with the expressions of the
  workflow file replaced by sample values: two of them without tags, one with
  an empty array of tags, and one event of a type that the action does not
  know.
\<close>

definition workflow_dimensions :: dimensions where
  "workflow_dimensions =
     [(''project'', ''wolfgangB33r/dynatrace-github-action''), (''branch'', ''refs/heads/main''),
      (''event'', ''push''), (''owner'', ''wolfgang'')]"

definition successful_test :: Event where
  "successful_test =
     \<lparr>type = ''CUSTOM_INFO'', source = ''GitHub'', title = Some ''Successful Test'',
      description = Some ''GitHub project was successfully tested'',
      deploymentName = None, deploymentVersion = None, deploymentProject = None,
      remediationAction = None, ciBackLink = None,
      entities = Some [''MOBILE_APPLICATION-C061BED4799B41C5''], tags = None,
      dimensions_e = Some workflow_dimensions\<rparr>"

definition failing_event_send_test :: Event where
  "failing_event_send_test =
     \<lparr>type = ''CUSTOM_INFO'', source = ''GitHub'', title = Some ''Failing Event Send Test'',
      description = Some ''GitHub project was successfully tested'',
      deploymentName = None, deploymentVersion = None, deploymentProject = None,
      remediationAction = None, ciBackLink = None,
      entities = Some [''WRONG-ENTITY-ID''], tags = Some [],
      dimensions_e = Some workflow_dimensions\<rparr>"

definition custom_deployment :: Event where
  "custom_deployment =
     \<lparr>type = ''CUSTOM_DEPLOYMENT'', source = ''GitHub'', title = None, description = None,
      deploymentName = Some ''GitHub Action'', deploymentVersion = Some ''refs/heads/main'',
      deploymentProject = Some ''wolfgangB33r/dynatrace-github-action'',
      remediationAction = Some ''None'',
      ciBackLink = Some ''https://github.com/wolfgangB33r/dynatrace-github-action'',
      entities = Some [''MOBILE_APPLICATION-C061BED4799B41C5''], tags = None,
      dimensions_e = Some workflow_dimensions\<rparr>"

definition unknown_type :: Event where
  "unknown_type =
     \<lparr>type = ''UNKNOWN_TYPE'', source = ''GitHub'', title = Some ''Unknown'',
      description = None,
      deploymentName = None, deploymentVersion = None, deploymentProject = None,
      remediationAction = None, ciBackLink = None,
      entities = None, tags = None, dimensions_e = None\<rparr>"

text \<open>
  A server that refuses every request, one that accepts every request, a client
  that cannot connect, and a stand-in for \<^verbatim>\<open>JSON.stringify\<close> that prints the
  type and the title of a payload.
\<close>

definition refusing_server :: server where
  "refusing_server w req = Responds (IncomingMessage (Some 400) (Some ''Bad Request''))"

definition accepting_server :: server where
  "accepting_server w req = Responds (IncomingMessage (Some 200) (Some ''OK''))"

definition unreachable_server :: server where
  "unreachable_server w req = Throws (Error ''connect ECONNREFUSED'')"

definition print_type_and_title :: "js_value \<Rightarrow> string" where
  "print_type_and_title v =
     (case property v ''eventType'' of Str s \<Rightarrow> s | _ \<Rightarrow> '''') @ '':'' @
     (case property v ''title'' of Str s \<Rightarrow> s | _ \<Rightarrow> '''')"

text \<open>
  Unicode tables for the code units below 256, and a few more upper cases:
  the lower case of the Latin-1 capitals, and an upper case under which the
  sharp s has two code units, and the dotless i and the long s have an ASCII
  capital.
\<close>

definition latin1_lower :: "utf16 \<Rightarrow> nat \<Rightarrow> utf16" where
  "latin1_lower s i =
     [if (192 \<le> s ! i \<and> s ! i \<le> 214) \<or> (216 \<le> s ! i \<and> s ! i \<le> 222) then s ! i + 32 else s ! i]"

definition sample_upper :: "nat \<Rightarrow> utf16" where
  "sample_upper c =
     (if c = 0xDF then [0x53, 0x53]
      else if c = 0x131 then [0x49]
      else if c = 0x17F then [0x53]
      else if c = 0xFF then [0x178]
      else if (224 \<le> c \<and> c \<le> 246) \<or> (248 \<le> c \<and> c \<le> 254) then [c - 32]
      else [c])"

section \<open>Code units and the character class\<close>

lemma code_unit_less: "code_unit c < 256"
proof -
  have "code_unit c mod 256 = code_unit c"
    unfolding code_unit_def by (rule of_char_mod_256)
  then show ?thesis
    by (metis mod_less_divisor zero_less_numeral)
qed

lemma code_unit_char_of: "n < 256 \<Longrightarrow> code_unit (char_of n) = n"
  by (simp add: code_unit_def)

lemma mem_code_units: "c \<in> set s \<longleftrightarrow> code_unit c \<in> set (map code_unit s)"
  by (auto simp: code_unit_def)

lemma code_units_members:
  "map code_unit class_members = 46 # [48..<58] @ [97..<123] @ [95, 45]"
  by (simp add: class_members_def code_unit_def upt_rec)

lemma mem_ranges:
  "n \<in> set (a # [b..<c] @ [d..<e] @ [f, g]) \<longleftrightarrow>
     n = a \<or> (b \<le> n \<and> n < c) \<or> (d \<le> n \<and> n < e) \<or> n = f \<or> n = g"
  by auto

lemma class_members_iff:
  "c \<in> set class_members \<longleftrightarrow>
     (code_unit c = 46 \<or> (48 \<le> code_unit c \<and> code_unit c \<le> 57) \<or>
      (97 \<le> code_unit c \<and> code_unit c \<le> 122) \<or> code_unit c = 95 \<or> code_unit c = 45)"
  unfolding mem_code_units [of c class_members] code_units_members mem_ranges
  by arith

lemma code_units_canonical_members:
  "map code_unit (map canonicalize class_members) = 46 # [48..<58] @ [65..<91] @ [95, 45]"
  by (simp add: class_members_def canonicalize_def code_unit_def upt_rec)

lemma code_unit_canonicalize:
  "code_unit (canonicalize c) =
     (if 97 \<le> code_unit c \<and> code_unit c \<le> 122 then code_unit c - 32 else code_unit c)"
  using code_unit_less [of c]
  by (simp add: canonicalize_def Let_def code_unit_char_of)

lemma class_matches_i_iff:
  "class_matches_i c \<longleftrightarrow>
     (code_unit c = 46 \<or> (48 \<le> code_unit c \<and> code_unit c \<le> 57) \<or>
      (65 \<le> code_unit c \<and> code_unit c \<le> 90) \<or>
      (97 \<le> code_unit c \<and> code_unit c \<le> 122) \<or> code_unit c = 95 \<or> code_unit c = 45)"
proof (cases "97 \<le> code_unit c \<and> code_unit c \<le> 122")
  case True
  have "code_unit (canonicalize c) = code_unit c - 32"
    by (simp only: code_unit_canonicalize if_P [OF True])
  then show ?thesis
    unfolding class_matches_i_def mem_code_units [of "canonicalize c"]
      code_units_canonical_members mem_ranges
    using True by arith
next
  case False
  have "code_unit (canonicalize c) = code_unit c"
    by (simp only: code_unit_canonicalize if_not_P [OF False])
  then show ?thesis
    unfolding class_matches_i_def mem_code_units [of "canonicalize c"]
      code_units_canonical_members mem_ranges
    using False by arith
qed

lemma code_unit_toLowerCase_unit:
  "code_unit (toLowerCase_unit c) =
     (if (65 \<le> code_unit c \<and> code_unit c \<le> 90) \<or> (192 \<le> code_unit c \<and> code_unit c \<le> 214) \<or>
         (216 \<le> code_unit c \<and> code_unit c \<le> 222)
      then code_unit c + 32 else code_unit c)"
  using code_unit_less [of c]
  by (simp add: toLowerCase_unit_def Let_def code_unit_char_of)

lemma code_unit_underscore: "code_unit (CHR ''_'') = 95"
  by (simp add: code_unit_def)

lemma sanitized_unit_member:
  "(if \<not> class_matches_i (toLowerCase_unit c) then CHR ''_'' else toLowerCase_unit c)
     \<in> set class_members"
  by (simp add: class_members_iff class_matches_i_iff code_unit_toLowerCase_unit
      code_unit_underscore)

lemma member_lower:
  assumes "c \<in> set class_members"
  shows "toLowerCase_unit c = c"
proof -
  from assms have "\<not> ((65 \<le> code_unit c \<and> code_unit c \<le> 90) \<or>
      (192 \<le> code_unit c \<and> code_unit c \<le> 214) \<or> (216 \<le> code_unit c \<and> code_unit c \<le> 222))"
    unfolding class_members_iff by arith
  then show ?thesis
    unfolding toLowerCase_unit_def Let_def by (rule if_not_P)
qed

lemma member_matches:
  assumes "c \<in> set class_members"
  shows "class_matches_i c"
  using assms unfolding class_members_iff class_matches_i_iff by arith

lemma member_fixed:
  assumes "c \<in> set class_members"
  shows "(if \<not> class_matches_i (toLowerCase_unit c) then CHR ''_'' else toLowerCase_unit c) = c"
  by (simp add: member_lower [OF assms] member_matches [OF assms])

lemma safeMetricKey_map:
  "safeMetricKey s =
     map (\<lambda>c. if \<not> class_matches_i (toLowerCase_unit c) then CHR ''_'' else toLowerCase_unit c) s"
  by (simp add: safeMetricKey_def replace_outside_class_def toLowerCase_def)

lemma safeMetricKey_members: "set (safeMetricKey s) \<subseteq> set class_members"
  unfolding safeMetricKey_map set_map image_subset_iff
  by (intro ballI) (rule sanitized_unit_member)

lemma safeMetricKey_fixed: "set s \<subseteq> set class_members \<Longrightarrow> safeMetricKey s = s"
  unfolding safeMetricKey_map
  by (induction s) (simp_all add: member_fixed)

section \<open>Traces of the delivery calls\<close>

lemma posts_append: "posts (a @ b) = posts a @ posts b"
  by (induction a rule: posts.induct) simp_all

lemma failures_logged_append:
  "failures_logged a \<Longrightarrow> failures_logged b \<Longrightarrow> failures_logged (a @ b)"
proof (induction a rule: failures_logged.induct)
  case 1
  then show ?case by simp
next
  case (2 req outcome w)
  show ?case
  proof (cases "delivery_failed outcome")
    case True
    with 2 show ?thesis
      by (cases w) (auto split: io.splits)
  next
    case False
    with 2 show ?thesis by simp
  qed
qed simp_all

lemma catch_log_try_post:
  assumes "req = \<lparr>verb = ''POST'', requestUrl = url, requestHeaders = headers http, data = body\<rparr>"
  shows "\<exists>t. catch_log (try_post srv http url body w) = Inr (w @ Post req (srv w req) # t)
       \<and> posts t = [] \<and> failures_logged (Post req (srv w req) # t)"
proof (cases "srv w req")
  case (Throws ex)
  then have "catch_log (try_post srv http url body w) = Inr (w @ Post req (srv w req) # [ErrorLog ex])"
    using assms by (simp add: catch_log_def try_post_def post_def Let_def core_error_def)
  moreover have "failures_logged (Post req (srv w req) # [ErrorLog ex])"
    using Throws by (simp add: delivery_failed_def)
  moreover have "posts [ErrorLog ex] = []" by simp
  ultimately show ?thesis by (intro exI [of _ "[ErrorLog ex]"] conjI)
next
  case (Responds message)
  show ?thesis
  proof (cases "delivery_failed (srv w req)")
    case True
    let ?ex = "Error (''HTTP request failed: '' @ template_text (statusMessage message))"
    from True Responds have "statusCode message = None \<or>
        (case statusCode message of Some c \<Rightarrow> c \<ge> 400 | None \<Rightarrow> False)"
      by (simp add: delivery_failed_def split: option.splits)
    then have "catch_log (try_post srv http url body w) = Inr (w @ Post req (srv w req) # [ErrorLog ?ex])"
      using assms Responds
      by (simp add: catch_log_def try_post_def post_def Let_def core_error_def)
    moreover have "failures_logged (Post req (srv w req) # [ErrorLog ?ex])"
      using True by simp
    moreover have "posts [ErrorLog ?ex] = []" by simp
    ultimately show ?thesis by (intro exI [of _ "[ErrorLog ?ex]"] conjI)
  next
    case False
    from False Responds have "\<not> (statusCode message = None \<or>
        (case statusCode message of Some c \<Rightarrow> c \<ge> 400 | None \<Rightarrow> False))"
      by (simp add: delivery_failed_def split: option.splits)
    then have "catch_log (try_post srv http url body w) = Inr (w @ Post req (srv w req) # [])"
      using assms Responds
      by (simp add: catch_log_def try_post_def post_def Let_def core_error_def)
    moreover have "failures_logged (Post req (srv w req) # [])"
      using False by simp
    moreover have "posts [] = []" by simp
    ultimately show ?thesis by (intro exI [of _ "[]"] conjI)
  qed
qed

lemma client_request:
  "post_request url token content body =
     \<lparr>verb = ''POST'', requestUrl = url, requestHeaders = headers (getClient token content),
      data = body\<rparr>"
  by (simp add: post_request_def getClient_def)

lemma send_event_trace:
  "\<exists>t. send_event js srv url (getClient token content) e w = Inr (w @ t)
       \<and> posts t = (if event_send e
                     then [post_request (url @ ''/api/v1/events'') token content (js (event_payload e))]
                     else [])
       \<and> failures_logged t"
proof -
  obtain message payload send where c:
    "create_event_structure e (extract_tagging_rules e) = (message, payload, send)"
    by (cases "create_event_structure e (extract_tagging_rules e)") auto
  have p: "event_payload e = payload" and s: "event_send e = send"
    using c by (simp_all add: event_payload_def event_send_def)
  show ?thesis
  proof (cases send)
    case True
    define req where "req = post_request (url @ ''/api/v1/events'') token content (js payload)"
    define w2 where "w2 = w @ [Info message, Info (js payload)]"
    have "req = \<lparr>verb = ''POST'', requestUrl = url @ ''/api/v1/events'',
        requestHeaders = headers (getClient token content), data = js payload\<rparr>"
      unfolding req_def by (rule client_request)
    from catch_log_try_post [OF this, of srv w2] obtain t where t:
      "catch_log (try_post srv (getClient token content) (url @ ''/api/v1/events'') (js payload) w2)
         = Inr (w2 @ Post req (srv w2 req) # t)"
      "posts t = []" "failures_logged (Post req (srv w2 req) # t)"
      by auto
    have "send_event js srv url (getClient token content) e w =
        catch_log (try_post srv (getClient token content) (url @ ''/api/v1/events'') (js payload) w2)"
      using True by (simp add: send_event_def c core_info_def w2_def)
    then have 1: "send_event js srv url (getClient token content) e w =
        Inr (w @ ([Info message, Info (js payload)] @ Post req (srv w2 req) # t))"
      using t(1) unfolding w2_def by simp
    have 2: "posts ([Info message, Info (js payload)] @ Post req (srv w2 req) # t) =
        (if event_send e
         then [post_request (url @ ''/api/v1/events'') token content (js (event_payload e))]
         else [])"
      using True by (simp add: t(2) p s req_def)
    have 3: "failures_logged ([Info message, Info (js payload)] @ Post req (srv w2 req) # t)"
      using t(3) by simp
    from 1 2 3 show ?thesis
      by (intro exI [of _ "[Info message, Info (js payload)] @ Post req (srv w2 req) # t"] conjI)
  next
    case False
    have 1: "send_event js srv url (getClient token content) e w = Inr (w @ [Info message])"
      using False by (simp add: send_event_def c core_info_def)
    have 2: "posts [Info message] =
        (if event_send e
         then [post_request (url @ ''/api/v1/events'') token content (js (event_payload e))]
         else [])"
      using False by (simp add: s)
    have 3: "failures_logged [Info message]" by simp
    from 1 2 3 show ?thesis
      by (intro exI [of _ "[Info message]"] conjI)
  qed
qed


lemma events_loop_trace:
  "\<exists>t. events_loop js srv url (getClient token content) es w = Inr (w @ t)
       \<and> posts t = map (\<lambda>e. post_request (url @ ''/api/v1/events'') token content
                                 (js (event_payload e)))
                       (filter event_send es)
       \<and> failures_logged t"
proof (induction es arbitrary: w)
  case Nil
  show ?case by simp
next
  case (Cons e es)
  define req where "req = (\<lambda>e. post_request (url @ ''/api/v1/events'') token content
                                 (js (event_payload e)))"
  from send_event_trace [of js srv url token content e w] obtain t1 where t1:
    "send_event js srv url (getClient token content) e w = Inr (w @ t1)"
    "posts t1 = (if event_send e then [req e] else [])"
    "failures_logged t1"
    unfolding req_def by auto
  from Cons.IH [of "w @ t1"] obtain t2 where t2:
    "events_loop js srv url (getClient token content) es (w @ t1) = Inr ((w @ t1) @ t2)"
    "posts t2 = map req (filter event_send es)"
    "failures_logged t2"
    unfolding req_def by auto
  have 1: "events_loop js srv url (getClient token content) (e # es) w = Inr (w @ (t1 @ t2))"
    by (simp add: t1(1) t2(1))
  have 2: "posts (t1 @ t2) = map req (filter event_send (e # es))"
    by (simp add: posts_append t1(2) t2(2))
  have 3: "failures_logged (t1 @ t2)"
    by (rule failures_logged_append [OF t1(3) t2(3)])
  from 1 2 3 have "\<exists>t. events_loop js srv url (getClient token content) (e # es) w = Inr (w @ t)
       \<and> posts t = map req (filter event_send (e # es)) \<and> failures_logged t"
    by (intro exI [of _ "t1 @ t2"] conjI)
  then show ?case
    unfolding req_def .
qed

lemma sendEvents_trace:
  "\<exists>t. sendEvents js srv url token events w = Inr (w @ t)
       \<and> posts t = map (\<lambda>e. post_request (url @ ''/api/v1/events'') token ''application/json''
                                 (js (event_payload e)))
                       (filter event_send events)
       \<and> failures_logged t"
proof -
  define i where "i = Info (''Sending '' @ Number_toString (length events) @ '' events'')"
  define req where "req = (\<lambda>e. post_request (url @ ''/api/v1/events'') token ''application/json''
                                 (js (event_payload e)))"
  from events_loop_trace [of js srv url token "''application/json''" events "w @ [i]"]
  obtain t where t:
    "events_loop js srv url (getClient token ''application/json'') events (w @ [i]) =
       Inr ((w @ [i]) @ t)"
    "posts t = map req (filter event_send events)"
    "failures_logged t"
    unfolding req_def by auto
  have 1: "sendEvents js srv url token events w = Inr (w @ (i # t))"
    using t(1) by (simp add: sendEvents_def core_info_def i_def)
  have 2: "posts (i # t) = map req (filter event_send events)"
    using t(2) by (simp add: i_def)
  have 3: "failures_logged (i # t)" using t(3) by (simp add: i_def)
  from 1 2 3 have "\<exists>t. sendEvents js srv url token events w = Inr (w @ t)
       \<and> posts t = map req (filter event_send events) \<and> failures_logged t"
    by (intro exI [of _ "i # t"] conjI)
  then show ?thesis
    unfolding req_def .
qed

lemma sendMetrics_trace:
  "\<exists>t. sendMetrics srv url token metrics w = Inr (w @ t)
       \<and> posts t = [post_request (url @ ''/api/v2/metrics/ingest'') token ''text/plain''
                       (metrics_loop '''' metrics)]
       \<and> failures_logged t"
proof -
  define i1 where "i1 = Info (''Sending '' @ Number_toString (length metrics) @ '' metrics'')"
  define i2 where "i2 = Info (metrics_loop '''' metrics)"
  define w2 where "w2 = w @ [i1, i2]"
  define req where "req = post_request (url @ ''/api/v2/metrics/ingest'') token ''text/plain''
                (metrics_loop '''' metrics)"
  have "req = \<lparr>verb = ''POST'', requestUrl = url @ ''/api/v2/metrics/ingest'',
      requestHeaders = headers (getClient token ''text/plain''),
      data = metrics_loop '''' metrics\<rparr>"
    unfolding req_def by (rule client_request)
  from catch_log_try_post [OF this, of srv w2] obtain t where t:
    "catch_log (try_post srv (getClient token ''text/plain'') (url @ ''/api/v2/metrics/ingest'')
        (metrics_loop '''' metrics) w2) = Inr (w2 @ Post req (srv w2 req) # t)"
    "posts t = []"
    "failures_logged (Post req (srv w2 req) # t)"
    by auto
  have "sendMetrics srv url token metrics w =
      catch_log (try_post srv (getClient token ''text/plain'') (url @ ''/api/v2/metrics/ingest'')
        (metrics_loop '''' metrics) w2)"
    by (simp add: sendMetrics_def core_info_def w2_def i1_def i2_def Let_def)
  then have 1: "sendMetrics srv url token metrics w = Inr (w @ ([i1, i2] @ Post req (srv w2 req) # t))"
    using t(1) unfolding w2_def by simp
  have 2: "posts ([i1, i2] @ Post req (srv w2 req) # t) = [req]"
    using t(2) by (simp add: i1_def i2_def)
  have 3: "failures_logged ([i1, i2] @ Post req (srv w2 req) # t)"
    using t(3) by (simp add: i1_def i2_def)
  from 1 2 3 have "\<exists>t. sendMetrics srv url token metrics w = Inr (w @ t)
       \<and> posts t = [req] \<and> failures_logged t"
    by (intro exI [of _ "[i1, i2] @ Post req (srv w2 req) # t"] conjI)
  then show ?thesis
    unfolding req_def .
qed

section \<open>The tagging rules\<close>

lemma split_not_Nil: "split sep s \<noteq> []"
  by (induction s) (simp_all add: Let_def)

lemma tag_rules_loop_acc:
  "tag_rules_loop acc ts =
     acc @ concat (map (\<lambda>t. case split (CHR '':'') t of
         [a, b] \<Rightarrow>
           [Obj [(''meTypes'', Arr [Str a]),
                 (''tags'', Arr [Obj [(''context'', Str ''CONTEXTLESS''), (''key'', Str b)]])]]
       | [a, b, c] \<Rightarrow>
           [Obj [(''meTypes'', Arr [Str a]),
                 (''tags'', Arr [Obj [(''context'', Str ''CONTEXTLESS''), (''key'', Str b),
                                      (''value'', Str c)]])]]
       | _ \<Rightarrow> []) ts)"
proof (induction ts arbitrary: acc)
  case Nil
  show ?case by simp
next
  case (Cons t ts)
  show ?case
    unfolding tag_rules_loop.simps Let_def Cons.IH
    by (simp split: list.splits)
qed

lemma rule_of_parts_shape:
  assumes "r \<in> set (case parts of
         [a, b] \<Rightarrow>
           [Obj [(''meTypes'', Arr [Str a]),
                 (''tags'', Arr [Obj [(''context'', Str ''CONTEXTLESS''), (''key'', Str b)]])]]
       | [a, b, c] \<Rightarrow>
           [Obj [(''meTypes'', Arr [Str a]),
                 (''tags'', Arr [Obj [(''context'', Str ''CONTEXTLESS''), (''key'', Str b),
                                      (''value'', Str c)]])]]
       | _ \<Rightarrow> [])"
  shows "(length parts = 2 \<or> length parts = 3)
         \<and> property_names r = [''meTypes'', ''tags'']
         \<and> property r ''meTypes'' = Arr [Str (hd parts)]
         \<and> (\<exists>tag. property r ''tags'' = Arr [tag]
                 \<and> property tag ''context'' = Str ''CONTEXTLESS'')"
proof (cases parts)
  case Nil
  with assms show ?thesis by simp
next
  case c1: (Cons a p1)
  show ?thesis
  proof (cases p1)
    case Nil
    with assms c1 show ?thesis by simp
  next
    case c2: (Cons b p2)
    show ?thesis
    proof (cases p2)
      case Nil
      with assms c1 c2 show ?thesis by simp
    next
      case c3: (Cons c p3)
      show ?thesis
      proof (cases p3)
        case Nil
        with assms c1 c2 c3 show ?thesis by simp
      next
        case (Cons d p4)
        with assms c1 c2 c3 show ?thesis by simp
      qed
    qed
  qed
qed

lemma mem_range:
  "n \<in> set [a..<b] \<longleftrightarrow> a \<le> n \<and> n < b"
  by auto

lemma upper_case_letters_iff:
  "c \<in> set ''ABCDEFGHIJKLMNOPQRSTUVWXYZ'' \<longleftrightarrow> 65 \<le> code_unit c \<and> code_unit c \<le> 90"
proof -
  have "map code_unit ''ABCDEFGHIJKLMNOPQRSTUVWXYZ'' = [65..<91]"
    by (simp add: code_unit_def upt_rec)
  then show ?thesis
    unfolding mem_code_units [of c "''ABCDEFGHIJKLMNOPQRSTUVWXYZ''"] mem_range
    by (simp only: mem_range) arith
qed

lemma members_not_upper_case:
  "c \<in> set class_members \<Longrightarrow> c \<notin> set ''ABCDEFGHIJKLMNOPQRSTUVWXYZ''"
  unfolding upper_case_letters_iff class_members_iff by arith

lemma toLowerCase_fixed: "set s \<subseteq> set class_members \<Longrightarrow> toLowerCase s = s"
  unfolding toLowerCase_def
  by (induction s) (simp_all add: member_lower)

lemma supported_type_sends:
  assumes "type e \<in> set [''CUSTOM_INFO'', ''AVAILABILITY_EVENT'', ''ERROR_EVENT'',
             ''PERFORMANCE_EVENT'', ''RESOURCE_CONTENTION'', ''CUSTOM_DEPLOYMENT'']"
  shows "event_send e"
    and "property (property (event_payload e) ''attachRules'') ''tagRule'' =
           Arr (extract_tagging_rules e)"
proof -
  from assms consider
    "type e = ''CUSTOM_INFO'' \<or> type e = ''AVAILABILITY_EVENT'' \<or> type e = ''ERROR_EVENT'' \<or>
     type e = ''PERFORMANCE_EVENT'' \<or> type e = ''RESOURCE_CONTENTION''"
    | "type e = ''CUSTOM_DEPLOYMENT''"
    by auto
  then have "event_send e \<and>
      property (property (event_payload e) ''attachRules'') ''tagRule'' =
        Arr (extract_tagging_rules e)"
  proof cases
    case 1
    then show ?thesis
      by (simp add: event_send_def event_payload_def create_event_structure_def)
  next
    case 2
    then show ?thesis
      by (simp add: event_send_def event_payload_def create_event_structure_def)
  qed
  then show "event_send e"
    and "property (property (event_payload e) ''attachRules'') ''tagRule'' =
           Arr (extract_tagging_rules e)"
    by simp_all
qed

section \<open>The sanitizer on the strings below 256\<close>

lemma safeMetricKey_sanitizes_latin1:
  "set (safeMetricKey s) \<subseteq> set ''.0123456789abcdefghijklmnopqrstuvwxyz_-''
   \<and> set (safeMetricKey s) \<inter> set ''ABCDEFGHIJKLMNOPQRSTUVWXYZ'' = {}
   \<and> toLowerCase (safeMetricKey s) = safeMetricKey s
   \<and> safeMetricKey (safeMetricKey s) = safeMetricKey s"
proof (intro conjI)
  show "set (safeMetricKey s) \<subseteq> set ''.0123456789abcdefghijklmnopqrstuvwxyz_-''"
    using safeMetricKey_members [of s] unfolding class_members_def .
  show "set (safeMetricKey s) \<inter> set ''ABCDEFGHIJKLMNOPQRSTUVWXYZ'' = {}"
    using safeMetricKey_members [of s] members_not_upper_case by blast
  show "toLowerCase (safeMetricKey s) = safeMetricKey s"
    by (rule toLowerCase_fixed) (rule safeMetricKey_members)
  show "safeMetricKey (safeMetricKey s) = safeMetricKey s"
    by (rule safeMetricKey_fixed) (rule safeMetricKey_members)
qed

section \<open>The sanitizer on every string\<close>

lemma canonical_units:
  "map (canonicalize_utf16 upper) (map code_unit class_members) =
     46 # [48..<58] @ [65..<91] @ [95, 45]"
  unfolding code_units_members
  by (simp add: canonicalize_utf16_def upt_rec)

lemma canonicalize_utf16_ascii:
  "c < 128 \<Longrightarrow> canonicalize_utf16 upper c = (if 97 \<le> c \<and> c \<le> 122 then c - 32 else c)"
  by (simp add: canonicalize_utf16_def)

lemma canonicalize_utf16_other:
  "128 \<le> c \<Longrightarrow> 128 \<le> canonicalize_utf16 upper c"
  by (simp add: canonicalize_utf16_def Let_def)

lemma class_matches_i_utf16_iff:
  "class_matches_i_utf16 upper c \<longleftrightarrow>
     (c = 46 \<or> (48 \<le> c \<and> c \<le> 57) \<or> (65 \<le> c \<and> c \<le> 90) \<or>
      (97 \<le> c \<and> c \<le> 122) \<or> c = 95 \<or> c = 45)"
proof (cases "c < 128")
  case True
  show ?thesis
    unfolding class_matches_i_utf16_def canonical_units mem_ranges
      canonicalize_utf16_ascii [OF True]
    by (cases "97 \<le> c \<and> c \<le> 122") (simp_all, arith+)
next
  case False
  then have "128 \<le> canonicalize_utf16 upper c"
    by (simp add: canonicalize_utf16_other)
  with False show ?thesis
    unfolding class_matches_i_utf16_def canonical_units mem_ranges
    by arith
qed


lemma toLowerCase_at_no_capital:
  assumes "128 \<le> c \<and> c \<noteq> 0x130 \<and> c \<noteq> 0x212A \<longrightarrow> (\<forall>x \<in> set (other s i). 128 \<le> x)"
    and "x \<in> set (toLowerCase_at other s i c)"
  shows "\<not> (65 \<le> x \<and> x \<le> 90)"
proof (cases "c < 128")
  case True
  with assms(2) show ?thesis
    by (auto simp add: toLowerCase_at_def split: if_splits)
next
  case False
  show ?thesis
  proof (cases "c = 0x130 \<or> c = 0x212A")
    case True
    with assms(2) show ?thesis
      by (auto simp add: toLowerCase_at_def split: if_splits)
  next
    case other: False
    with False assms(2) have "x \<in> set (other s i)"
      by (simp add: toLowerCase_at_def)
    with False other assms(1) have "128 \<le> x"
      by auto
    then show ?thesis by simp
  qed
qed

lemma drop_Cons_step:
  assumes "drop i s = c # cs"
  shows "i < length s" and "s ! i = c" and "drop (Suc i) s = cs"
proof -
  show 1: "i < length s"
    using assms by (cases "i < length s") simp_all
  from hd_drop_conv_nth [OF 1] assms show "s ! i = c"
    by simp
  have "drop (Suc i) s = tl (drop i s)"
    by (simp add: drop_Suc tl_drop)
  with assms show "drop (Suc i) s = cs"
    by simp
qed

lemma toLowerCase_from_no_capital:
  assumes "\<forall>s i. i < length s \<and> 128 \<le> s ! i \<and> s ! i \<noteq> 0x130 \<and> s ! i \<noteq> 0x212A \<longrightarrow>
             (\<forall>x \<in> set (other s i). 128 \<le> x)"
    and "drop i s = cs"
    and "x \<in> set (toLowerCase_from other s i cs)"
  shows "\<not> (65 \<le> x \<and> x \<le> 90)"
  using assms(2,3)
proof (induction cs arbitrary: i)
  case Nil
  then show ?case by simp
next
  case (Cons c cs)
  note i = drop_Cons_step(1) [OF Cons.prems(1)]
    and c = drop_Cons_step(2) [OF Cons.prems(1)]
    and d = drop_Cons_step(3) [OF Cons.prems(1)]
  from Cons.prems(2) consider "x \<in> set (toLowerCase_at other s i c)"
    | "x \<in> set (toLowerCase_from other s (Suc i) cs)"
    by auto
  then show ?case
  proof cases
    case 1
    from assms(1) i c have
      "128 \<le> c \<and> c \<noteq> 0x130 \<and> c \<noteq> 0x212A \<longrightarrow> (\<forall>x \<in> set (other s i). 128 \<le> x)"
      by blast
    from toLowerCase_at_no_capital [OF this 1] show ?thesis .
  next
    case 2
    from Cons.IH [OF d 2] show ?thesis .
  qed
qed

lemma toLowerCase_utf16_no_capital:
  assumes "\<forall>s i. i < length s \<and> 128 \<le> s ! i \<and> s ! i \<noteq> 0x130 \<and> s ! i \<noteq> 0x212A \<longrightarrow>
             (\<forall>x \<in> set (other s i). 128 \<le> x)"
    and "x \<in> set (toLowerCase_utf16 other s)"
  shows "\<not> (65 \<le> x \<and> x \<le> 90)"
  using toLowerCase_from_no_capital [OF assms(1), of 0 s s x] assms(2)
  by (simp add: toLowerCase_utf16_def)

lemma class_units_iff:
  "c \<in> set (map code_unit ''.0123456789abcdefghijklmnopqrstuvwxyz_-'') \<longleftrightarrow>
     (c = 46 \<or> (48 \<le> c \<and> c \<le> 57) \<or> (97 \<le> c \<and> c \<le> 122) \<or> c = 95 \<or> c = 45)"
  unfolding code_units_members [unfolded class_members_def] mem_ranges
  by arith

lemma capital_units_iff:
  "c \<in> set (map code_unit ''ABCDEFGHIJKLMNOPQRSTUVWXYZ'') \<longleftrightarrow> 65 \<le> c \<and> c \<le> 90"
proof -
  have "map code_unit ''ABCDEFGHIJKLMNOPQRSTUVWXYZ'' = [65..<91]"
    by (simp add: code_unit_def upt_rec)
  then show ?thesis
    by (simp only: mem_range) arith
qed

lemma toLowerCase_from_fixed:
  assumes "\<forall>c \<in> set cs. c < 128 \<and> \<not> (65 \<le> c \<and> c \<le> 90)"
  shows "toLowerCase_from other s i cs = cs"
  using assms by (induction cs arbitrary: i) (simp_all add: toLowerCase_at_def)

lemma replace_outside_class_utf16_fixed:
  assumes "\<forall>c \<in> set s. class_matches_i_utf16 upper c"
  shows "replace_outside_class_utf16 upper s = s"
  using assms unfolding replace_outside_class_utf16_def
  by (induction s) simp_all

lemma safeMetricKey_utf16_units:
  assumes "\<forall>s i. i < length s \<and> 128 \<le> s ! i \<and> s ! i \<noteq> 0x130 \<and> s ! i \<noteq> 0x212A \<longrightarrow>
             (\<forall>x \<in> set (other s i). 128 \<le> x)"
    and "x \<in> set (safeMetricKey_utf16 other upper s)"
  shows "x = 46 \<or> (48 \<le> x \<and> x \<le> 57) \<or> (97 \<le> x \<and> x \<le> 122) \<or> x = 95 \<or> x = 45"
proof -
  from assms(2) obtain l where l: "l \<in> set (toLowerCase_utf16 other s)"
    and x: "x = (if \<not> class_matches_i_utf16 upper l then code_unit (CHR ''_'') else l)"
    by (auto simp add: safeMetricKey_utf16_def replace_outside_class_utf16_def)
  note n = toLowerCase_utf16_no_capital [OF assms(1) l]
  show ?thesis
  proof (cases "class_matches_i_utf16 upper l")
    case True
    then have "x = l" using x by simp
    with True n show ?thesis
      unfolding class_matches_i_utf16_iff by arith
  next
    case False
    then have "x = 95" using x by (simp add: code_unit_def)
    then show ?thesis by simp
  qed
qed

text \<open>
  On the strings below 256, with the Latin-1 table for the lower case, the
  sanitizer on code units is the sanitizer on \<^typ>\<open>string\<close>.
\<close>

lemma toLowerCase_at_latin1:
  assumes "s ! i = code_unit c"
  shows "toLowerCase_at latin1_lower s i (code_unit c) = [code_unit (toLowerCase_unit c)]"
  using code_unit_less [of c]
  by (simp add: toLowerCase_at_def latin1_lower_def assms code_unit_toLowerCase_unit)

lemma toLowerCase_from_latin1:
  assumes "drop i s = map code_unit cs"
  shows "toLowerCase_from latin1_lower s i (map code_unit cs) =
           map code_unit (map toLowerCase_unit cs)"
  using assms
proof (induction cs arbitrary: i)
  case Nil
  show ?case by simp
next
  case (Cons c cs)
  from Cons.prems have d: "drop i s = code_unit c # map code_unit cs"
    by simp
  note a = toLowerCase_at_latin1 [OF drop_Cons_step(2) [OF d]]
  note b = Cons.IH [OF drop_Cons_step(3) [OF d]]
  show ?case
    by (simp add: a b)
qed

lemma class_matches_i_units:
  "class_matches_i_utf16 upper (code_unit c) \<longleftrightarrow> class_matches_i c"
  unfolding class_matches_i_utf16_iff class_matches_i_iff ..

lemma safeMetricKey_utf16_latin1:
  "safeMetricKey_utf16 latin1_lower upper (map code_unit s) = map code_unit (safeMetricKey s)"
proof -
  have "toLowerCase_utf16 latin1_lower (map code_unit s) = map code_unit (toLowerCase s)"
    unfolding toLowerCase_utf16_def toLowerCase_def
    by (rule toLowerCase_from_latin1) simp
  then show ?thesis
    by (simp add: safeMetricKey_utf16_def safeMetricKey_def replace_outside_class_utf16_def
        replace_outside_class_def class_matches_i_units)
qed

section \<open>The types of the tagging rules\<close>

lemma rule_of_parts_meTypes:
  "map (\<lambda>r. property r ''meTypes'')
     (case parts of
         [a, b] \<Rightarrow>
           [Obj [(''meTypes'', Arr [Str a]),
                 (''tags'', Arr [Obj [(''context'', Str ''CONTEXTLESS''), (''key'', Str b)]])]]
       | [a, b, c] \<Rightarrow>
           [Obj [(''meTypes'', Arr [Str a]),
                 (''tags'', Arr [Obj [(''context'', Str ''CONTEXTLESS''), (''key'', Str b),
                                      (''value'', Str c)]])]]
       | _ \<Rightarrow> []) =
   (if length parts = 2 \<or> length parts = 3 then [Arr [Str (hd parts)]] else [])"
proof (cases parts)
  case Nil
  then show ?thesis by simp
next
  case c1: (Cons a p1)
  show ?thesis
  proof (cases p1)
    case Nil
    with c1 show ?thesis by simp
  next
    case c2: (Cons b p2)
    show ?thesis
    proof (cases p2)
      case Nil
      with c1 c2 show ?thesis by simp
    next
      case c3: (Cons c p3)
      show ?thesis
      proof (cases p3)
        case Nil
        with c1 c2 c3 show ?thesis by simp
      next
        case (Cons d p4)
        with c1 c2 c3 show ?thesis by simp
      qed
    qed
  qed
qed

lemma tag_rules_meTypes:
  "map (\<lambda>r. property r ''meTypes'') (tag_rules_loop [] ts) =
     map (\<lambda>t. Arr [Str (hd (split (CHR '':'') t))])
       (filter (\<lambda>t. length (split (CHR '':'') t) = 2 \<or> length (split (CHR '':'') t) = 3) ts)"
  unfolding tag_rules_loop_acc [of "[]" ts]
  by (induction ts) (simp_all add: rule_of_parts_meTypes del: property.simps)

section \<open>The claims\<close>

subsection \<open>Metric encoding\<close>

text \<open>
  C1. The body-building loop of \<^verbatim>\<open>sendMetrics\<close>, started on the empty
  string with the one metric named \<^verbatim>\<open>My.Metric\<close>, of value \<^verbatim>\<open>1.0\<close> and
  with the dimensions \<^verbatim>\<open>Proj\<close> = \<^verbatim>\<open>x\<close> and \<^verbatim>\<open>Empty\<close> = the empty string,
  yields exactly \<^verbatim>\<open>my.metric,proj="x" 1.0\<close> followed by a newline: the
  dimension with the empty value is left out, the key of the other one is in
  lower case, and the value follows one space. (The field that holds the name
  is called \<^verbatim>\<open>metric\<close> in the interface \<^verbatim>\<open>Metric\<close>.)
\<close>

theorem metric_encoding_example:
  "metrics_loop ''''
     [\<lparr>metric = ''My.Metric'', value = ''1.0'',
       dimensions = Some [(''Proj'', ''x''), (''Empty'', '''')]\<rparr>] =
   ''my.metric,proj='' @ [CHR 0x22] @ ''x'' @ [CHR 0x22] @ '' 1.0'' @ [CHR 0x0A]"
  by code_simp

subsection \<open>Event classification\<close>

text \<open>
  C2. For every event: when its type is one of \<^verbatim>\<open>CUSTOM_INFO\<close>,
  \<^verbatim>\<open>AVAILABILITY_EVENT\<close>, \<^verbatim>\<open>ERROR_EVENT\<close>, \<^verbatim>\<open>PERFORMANCE_EVENT\<close>,
  \<^verbatim>\<open>RESOURCE_CONTENTION\<close>, the payload of the standard shape is built and its
  \<^verbatim>\<open>customProperties\<close> are the dimensions of the event; when its type is
  \<^verbatim>\<open>CUSTOM_DEPLOYMENT\<close>, the payload of the deployment shape is built; for
  every other type no payload is built and the turn of the loop for that event
  issues no request.
\<close>

theorem event_classification:
  "(type e \<in> set [''CUSTOM_INFO'', ''AVAILABILITY_EVENT'', ''ERROR_EVENT'',
                    ''PERFORMANCE_EVENT'', ''RESOURCE_CONTENTION''] \<longrightarrow>
      event_send e
    \<and> event_payload e =
        Obj [(''eventType'', Str (type e)),
             (''attachRules'', Obj [(''entityIds'', optional_strings (entities e)),
                                    (''tagRule'', Arr (extract_tagging_rules e))]),
             (''source'', Str (source e)),
             (''description'', optional_string (description e)),
             (''title'', optional_string (title e)),
             (''customProperties'', optional_dimensions (dimensions_e e))]
    \<and> property (event_payload e) ''customProperties'' = optional_dimensions (dimensions_e e))
   \<and> (type e = ''CUSTOM_DEPLOYMENT'' \<longrightarrow>
      event_send e
    \<and> event_payload e =
        Obj [(''eventType'', Str (type e)),
             (''attachRules'', Obj [(''entityIds'', optional_strings (entities e)),
                                    (''tagRule'', Arr (extract_tagging_rules e))]),
             (''source'', Str (source e)),
             (''deploymentName'', optional_string (deploymentName e)),
             (''deploymentVersion'', optional_string (deploymentVersion e)),
             (''deploymentProject'', optional_string (deploymentProject e)),
             (''remediationAction'', optional_string (remediationAction e)),
             (''ciBackLink'', optional_string (ciBackLink e)),
             (''customProperties'', optional_dimensions (dimensions_e e))])
   \<and> (type e \<notin> set [''CUSTOM_INFO'', ''AVAILABILITY_EVENT'', ''ERROR_EVENT'',
                    ''PERFORMANCE_EVENT'', ''RESOURCE_CONTENTION'', ''CUSTOM_DEPLOYMENT''] \<longrightarrow>
      \<not> event_send e
    \<and> event_payload e = Undefined
    \<and> (\<exists>t. send_event js srv url (getClient token ''application/json'') e w = Inr (w @ t)
           \<and> posts t = []))"
proof (intro conjI impI)
  assume a: "type e \<in> set [''CUSTOM_INFO'', ''AVAILABILITY_EVENT'', ''ERROR_EVENT'',
                    ''PERFORMANCE_EVENT'', ''RESOURCE_CONTENTION'']"
  then have c: "type e = ''CUSTOM_INFO'' \<or> type e = ''AVAILABILITY_EVENT'' \<or>
      type e = ''ERROR_EVENT'' \<or> type e = ''PERFORMANCE_EVENT'' \<or>
      type e = ''RESOURCE_CONTENTION''"
    by simp
  show "event_send e"
    using c by (simp add: event_send_def create_event_structure_def)
  show p: "event_payload e =
        Obj [(''eventType'', Str (type e)),
             (''attachRules'', Obj [(''entityIds'', optional_strings (entities e)),
                                    (''tagRule'', Arr (extract_tagging_rules e))]),
             (''source'', Str (source e)),
             (''description'', optional_string (description e)),
             (''title'', optional_string (title e)),
             (''customProperties'', optional_dimensions (dimensions_e e))]"
    using c by (simp add: event_payload_def create_event_structure_def)
  show "property (event_payload e) ''customProperties'' = optional_dimensions (dimensions_e e)"
    unfolding p by simp
next
  assume a: "type e = ''CUSTOM_DEPLOYMENT''"
  show "event_send e"
    by (simp add: a event_send_def create_event_structure_def)
  show "event_payload e =
        Obj [(''eventType'', Str (type e)),
             (''attachRules'', Obj [(''entityIds'', optional_strings (entities e)),
                                    (''tagRule'', Arr (extract_tagging_rules e))]),
             (''source'', Str (source e)),
             (''deploymentName'', optional_string (deploymentName e)),
             (''deploymentVersion'', optional_string (deploymentVersion e)),
             (''deploymentProject'', optional_string (deploymentProject e)),
             (''remediationAction'', optional_string (remediationAction e)),
             (''ciBackLink'', optional_string (ciBackLink e)),
             (''customProperties'', optional_dimensions (dimensions_e e))]"
    by (simp add: a event_payload_def create_event_structure_def)
next
  assume a: "type e \<notin> set [''CUSTOM_INFO'', ''AVAILABILITY_EVENT'', ''ERROR_EVENT'',
                    ''PERFORMANCE_EVENT'', ''RESOURCE_CONTENTION'', ''CUSTOM_DEPLOYMENT'']"
  then have c: "\<not> (type e = ''CUSTOM_INFO'' \<or> type e = ''AVAILABILITY_EVENT'' \<or>
      type e = ''ERROR_EVENT'' \<or> type e = ''PERFORMANCE_EVENT'' \<or>
      type e = ''RESOURCE_CONTENTION'')" and d: "type e \<noteq> ''CUSTOM_DEPLOYMENT''"
    by simp_all
  show s: "\<not> event_send e"
    using c d by (simp add: event_send_def create_event_structure_def)
  show "event_payload e = Undefined"
    using c d by (simp add: event_payload_def create_event_structure_def)
  from send_event_trace [of js srv url token "''application/json''" e w] s
  show "\<exists>t. send_event js srv url (getClient token ''application/json'') e w = Inr (w @ t)
           \<and> posts t = []"
    by auto
qed

theorem event_classification_witness:
  "type successful_test \<in> set [''CUSTOM_INFO'', ''AVAILABILITY_EVENT'', ''ERROR_EVENT'',
                    ''PERFORMANCE_EVENT'', ''RESOURCE_CONTENTION'']
   \<and> event_send successful_test
   \<and> property (event_payload successful_test) ''customProperties'' =
       optional_dimensions (Some workflow_dimensions)
   \<and> type custom_deployment = ''CUSTOM_DEPLOYMENT''
   \<and> event_send custom_deployment
   \<and> property (event_payload custom_deployment) ''deploymentName'' = Str ''GitHub Action''
   \<and> type unknown_type \<notin> set [''CUSTOM_INFO'', ''AVAILABILITY_EVENT'', ''ERROR_EVENT'',
                    ''PERFORMANCE_EVENT'', ''RESOURCE_CONTENTION'', ''CUSTOM_DEPLOYMENT'']
   \<and> \<not> event_send unknown_type
   \<and> (\<exists>t. send_event print_type_and_title accepting_server ''https://abc.live.dynatrace.com''
              (getClient ''dt0c01'' ''application/json'') unknown_type [] = Inr ([] @ t)
          \<and> posts t = [])"
proof -
  have 1: "type successful_test \<in> set [''CUSTOM_INFO'', ''AVAILABILITY_EVENT'', ''ERROR_EVENT'',
                    ''PERFORMANCE_EVENT'', ''RESOURCE_CONTENTION'']"
    by (simp add: successful_test_def)
  have 2: "type custom_deployment = ''CUSTOM_DEPLOYMENT''"
    by (simp add: custom_deployment_def)
  have 3: "type unknown_type \<notin> set [''CUSTOM_INFO'', ''AVAILABILITY_EVENT'', ''ERROR_EVENT'',
                    ''PERFORMANCE_EVENT'', ''RESOURCE_CONTENTION'', ''CUSTOM_DEPLOYMENT'']"
    by (simp add: unknown_type_def)
  have 4: "dimensions_e successful_test = Some workflow_dimensions"
    by (simp add: successful_test_def)
  have 5: "deploymentName custom_deployment = Some ''GitHub Action''"
    by (simp add: custom_deployment_def)
  from event_classification [of successful_test] 1
  have a: "event_send successful_test"
    "property (event_payload successful_test) ''customProperties'' =
       optional_dimensions (Some workflow_dimensions)"
    unfolding 4 by blast+
  from event_classification [of custom_deployment] 2
  have "event_send custom_deployment \<and>
    event_payload custom_deployment =
        Obj [(''eventType'', Str (type custom_deployment)),
             (''attachRules'', Obj [(''entityIds'', optional_strings (entities custom_deployment)),
                                    (''tagRule'', Arr (extract_tagging_rules custom_deployment))]),
             (''source'', Str (source custom_deployment)),
             (''deploymentName'', optional_string (deploymentName custom_deployment)),
             (''deploymentVersion'', optional_string (deploymentVersion custom_deployment)),
             (''deploymentProject'', optional_string (deploymentProject custom_deployment)),
             (''remediationAction'', optional_string (remediationAction custom_deployment)),
             (''ciBackLink'', optional_string (ciBackLink custom_deployment)),
             (''customProperties'', optional_dimensions (dimensions_e custom_deployment))]"
    by blast
  then have b: "event_send custom_deployment"
    "property (event_payload custom_deployment) ''deploymentName'' = Str ''GitHub Action''"
    by (simp_all add: 5 optional_string_def)
  from event_classification [of unknown_type print_type_and_title accepting_server
      "''https://abc.live.dynatrace.com''" "''dt0c01''" "[]"] 3
  have c: "\<not> event_send unknown_type"
    "\<exists>t. send_event print_type_and_title accepting_server ''https://abc.live.dynatrace.com''
              (getClient ''dt0c01'' ''application/json'') unknown_type [] = Inr ([] @ t)
          \<and> posts t = []"
    by blast+
  from 1 2 3 a b c show ?thesis
    by (intro conjI)
qed

subsection \<open>No exception leaves the delivery functions\<close>

text \<open>
  C3. For every endpoint, token and list of records, and for every behaviour of
  the HTTP client (a response with a status code of at least 400, a response
  without a status code, a thrown error), \<^verbatim>\<open>sendMetrics\<close> and
  \<^verbatim>\<open>sendEvents\<close> return normally: the result is never an exception, and in
  the trace of the run every failed delivery is followed by its line of
  \<^verbatim>\<open>core.error\<close>.
\<close>

theorem deliveries_never_throw:
  "(\<exists>t. sendMetrics srv url token metrics w = Inr (w @ t) \<and> failures_logged t)
   \<and> (\<exists>t. sendEvents js srv url token events w = Inr (w @ t) \<and> failures_logged t)"
  using sendMetrics_trace [of srv url token metrics w]
    sendEvents_trace [of js srv url token events w]
  by auto

theorem deliveries_never_throw_witness:
  "delivery_failed (unreachable_server [] \<lparr>verb = ''POST'', requestUrl = '''',
       requestHeaders = [], data = ''''\<rparr>)
   \<and> delivery_failed (refusing_server [] \<lparr>verb = ''POST'', requestUrl = '''',
       requestHeaders = [], data = ''''\<rparr>)
   \<and> (\<exists>t. sendMetrics unreachable_server ''https://abc.live.dynatrace.com'' ''dt0c01''
            [\<lparr>metric = ''a'', value = ''1'', dimensions = None\<rparr>] [] = Inr ([] @ t)
          \<and> failures_logged t)
   \<and> (\<exists>t. sendEvents print_type_and_title refusing_server ''https://abc.live.dynatrace.com''
            ''dt0c01'' [failing_event_send_test, successful_test] [] = Inr ([] @ t)
          \<and> failures_logged t)"
proof -
  have 1: "delivery_failed (unreachable_server [] \<lparr>verb = ''POST'', requestUrl = '''',
       requestHeaders = [], data = ''''\<rparr>)"
    by (simp add: delivery_failed_def unreachable_server_def)
  have 2: "delivery_failed (refusing_server [] \<lparr>verb = ''POST'', requestUrl = '''',
       requestHeaders = [], data = ''''\<rparr>)"
    by (simp add: delivery_failed_def refusing_server_def)
  note deliveries_never_throw [of unreachable_server "''https://abc.live.dynatrace.com''"
      "''dt0c01''" "[\<lparr>metric = ''a'', value = ''1'', dimensions = None\<rparr>]" "[]"
      print_type_and_title "[]"]
  then have 3: "\<exists>t. sendMetrics unreachable_server ''https://abc.live.dynatrace.com'' ''dt0c01''
            [\<lparr>metric = ''a'', value = ''1'', dimensions = None\<rparr>] [] = Inr ([] @ t)
          \<and> failures_logged t"
    by (rule conjunct1)
  note deliveries_never_throw [of refusing_server "''https://abc.live.dynatrace.com''"
      "''dt0c01''" "[]" "[]" print_type_and_title "[failing_event_send_test, successful_test]"]
  then have 4: "\<exists>t. sendEvents print_type_and_title refusing_server
            ''https://abc.live.dynatrace.com''
            ''dt0c01'' [failing_event_send_test, successful_test] [] = Inr ([] @ t)
          \<and> failures_logged t"
    by (rule conjunct2)
  from 1 2 3 4 show ?thesis
    by (intro conjI)
qed

subsection \<open>Tag rules\<close>

text \<open>
  C4. The loop over the tags of an event splits each tag at the colons: two
  parts give one rule whose one tag has the second part as key and no value,
  three parts give one rule whose one tag has the second part as key and the
  third as value, any other number of parts gives no rule; the rules are in
  the order of the tags that give one.
\<close>

theorem tag_rule_extraction:
  "tag_rules_loop [] ts =
     concat (map (\<lambda>t. case split (CHR '':'') t of
         [a, b] \<Rightarrow>
           [Obj [(''meTypes'', Arr [Str a]),
                 (''tags'', Arr [Obj [(''context'', Str ''CONTEXTLESS''), (''key'', Str b)]])]]
       | [a, b, c] \<Rightarrow>
           [Obj [(''meTypes'', Arr [Str a]),
                 (''tags'', Arr [Obj [(''context'', Str ''CONTEXTLESS''), (''key'', Str b),
                                      (''value'', Str c)]])]]
       | _ \<Rightarrow> []) ts)"
  by (simp add: tag_rules_loop_acc)

theorem tag_rule_extraction_witness:
  "tag_rules_loop [] [''HOST:env'', ''HOST'', ''HOST:env:prod'', ''A:B:C:D''] =
     [Obj [(''meTypes'', Arr [Str ''HOST'']),
           (''tags'', Arr [Obj [(''context'', Str ''CONTEXTLESS''), (''key'', Str ''env'')]])],
      Obj [(''meTypes'', Arr [Str ''HOST'']),
           (''tags'', Arr [Obj [(''context'', Str ''CONTEXTLESS''), (''key'', Str ''env''),
                                (''value'', Str ''prod'')]])]]"
  using tag_rule_extraction [of "[''HOST:env'', ''HOST'', ''HOST:env:prod'', ''A:B:C:D'']"]
  by simp

text \<open>
  C5. As the claim names it, a rule carries its entity types in a property
  \<^verbatim>\<open>matchTypes\<close>. The rule built from the tag \<^verbatim>\<open>HOST:env\<close> has no such
  property: the object literal names it \<^verbatim>\<open>meTypes\<close>, and under that name it
  reaches \<^verbatim>\<open>JSON.stringify\<close>.
\<close>

theorem tag_rule_matchTypes_counterexample:
  "tag_rules_loop [] [''HOST:env''] =
     [Obj [(''meTypes'', Arr [Str ''HOST'']),
           (''tags'', Arr [Obj [(''context'', Str ''CONTEXTLESS''), (''key'', Str ''env'')]])]]
   \<and> property (hd (tag_rules_loop [] [''HOST:env''])) ''matchTypes'' \<noteq> Arr [Str ''HOST'']
   \<and> property (hd (tag_rules_loop [] [''HOST:env''])) ''matchTypes'' = Undefined"
  by simp

text \<open>
  C5, amended. The rules that the loop derives correspond, in order, to the
  tags of two or three parts: the \<^verbatim>\<open>meTypes\<close> of each rule is the
  one-element array of the first part of the tag it is derived from. Every
  rule has exactly the properties \<^verbatim>\<open>meTypes\<close> and \<^verbatim>\<open>tags\<close>, and
  \<^verbatim>\<open>tags\<close> is an array of one tag whose \<^verbatim>\<open>context\<close> is \<^verbatim>\<open>CONTEXTLESS\<close>.
\<close>

theorem tag_rule_shape:
  "map (\<lambda>r. property r ''meTypes'') (tag_rules_loop [] ts) =
     map (\<lambda>t. Arr [Str (hd (split (CHR '':'') t))])
       (filter (\<lambda>t. length (split (CHR '':'') t) = 2 \<or> length (split (CHR '':'') t) = 3) ts)
   \<and> (\<forall>r \<in> set (tag_rules_loop [] ts).
         property_names r = [''meTypes'', ''tags'']
       \<and> (\<exists>tag. property r ''tags'' = Arr [tag]
               \<and> property tag ''context'' = Str ''CONTEXTLESS''))"
proof (intro conjI ballI)
  show "map (\<lambda>r. property r ''meTypes'') (tag_rules_loop [] ts) =
     map (\<lambda>t. Arr [Str (hd (split (CHR '':'') t))])
       (filter (\<lambda>t. length (split (CHR '':'') t) = 2 \<or> length (split (CHR '':'') t) = 3) ts)"
    by (rule tag_rules_meTypes)
next
  fix r assume "r \<in> set (tag_rules_loop [] ts)"
  then obtain t where r:
    "r \<in> set (case split (CHR '':'') t of
         [a, b] \<Rightarrow>
           [Obj [(''meTypes'', Arr [Str a]),
                 (''tags'', Arr [Obj [(''context'', Str ''CONTEXTLESS''), (''key'', Str b)]])]]
       | [a, b, c] \<Rightarrow>
           [Obj [(''meTypes'', Arr [Str a]),
                 (''tags'', Arr [Obj [(''context'', Str ''CONTEXTLESS''), (''key'', Str b),
                                      (''value'', Str c)]])]]
       | _ \<Rightarrow> [])"
    unfolding tag_rules_loop_acc [of "[]" ts] by auto
  note s = rule_of_parts_shape [OF r]
  from s show "property_names r = [''meTypes'', ''tags'']"
    by (rule conjunct1 [OF conjunct2])
  from s show "\<exists>tag. property r ''tags'' = Arr [tag]
               \<and> property tag ''context'' = Str ''CONTEXTLESS''"
    by (rule conjunct2 [OF conjunct2 [OF conjunct2]])
qed

theorem tag_rule_shape_witness:
  "map (\<lambda>r. property r ''meTypes'')
     (tag_rules_loop [] [''HOST:env'', ''HOST'', ''SERVICE:team:a'', ''A:B:C:D'']) =
     [Arr [Str ''HOST''], Arr [Str ''SERVICE'']]
   \<and> Obj [(''meTypes'', Arr [Str ''SERVICE'']),
          (''tags'', Arr [Obj [(''context'', Str ''CONTEXTLESS''), (''key'', Str ''team''),
                               (''value'', Str ''a'')]])]
       \<in> set (tag_rules_loop [] [''HOST:env'', ''HOST'', ''SERVICE:team:a'', ''A:B:C:D''])
   \<and> property_names (Obj [(''meTypes'', Arr [Str ''SERVICE'']),
          (''tags'', Arr [Obj [(''context'', Str ''CONTEXTLESS''), (''key'', Str ''team''),
                               (''value'', Str ''a'')]])]) = [''meTypes'', ''tags'']
   \<and> (\<exists>tag. property (Obj [(''meTypes'', Arr [Str ''SERVICE'']),
          (''tags'', Arr [Obj [(''context'', Str ''CONTEXTLESS''), (''key'', Str ''team''),
                               (''value'', Str ''a'')]])]) ''tags'' = Arr [tag]
           \<and> property tag ''context'' = Str ''CONTEXTLESS'')"
proof -
  have h: "Obj [(''meTypes'', Arr [Str ''SERVICE'']),
          (''tags'', Arr [Obj [(''context'', Str ''CONTEXTLESS''), (''key'', Str ''team''),
                               (''value'', Str ''a'')]])]
       \<in> set (tag_rules_loop [] [''HOST:env'', ''HOST'', ''SERVICE:team:a'', ''A:B:C:D''])"
    by simp
  note t = tag_rule_shape [of "[''HOST:env'', ''HOST'', ''SERVICE:team:a'', ''A:B:C:D'']"]
  from t have 1: "map (\<lambda>r. property r ''meTypes'')
     (tag_rules_loop [] [''HOST:env'', ''HOST'', ''SERVICE:team:a'', ''A:B:C:D'']) =
     [Arr [Str ''HOST''], Arr [Str ''SERVICE'']]"
    by simp
  from t h have 2: "property_names (Obj [(''meTypes'', Arr [Str ''SERVICE'']),
          (''tags'', Arr [Obj [(''context'', Str ''CONTEXTLESS''), (''key'', Str ''team''),
                               (''value'', Str ''a'')]])]) = [''meTypes'', ''tags'']
   \<and> (\<exists>tag. property (Obj [(''meTypes'', Arr [Str ''SERVICE'']),
          (''tags'', Arr [Obj [(''context'', Str ''CONTEXTLESS''), (''key'', Str ''team''),
                               (''value'', Str ''a'')]])]) ''tags'' = Arr [tag]
           \<and> property tag ''context'' = Str ''CONTEXTLESS'')"
    by blast
  from 1 h 2 show ?thesis
    by (intro conjI) simp_all
qed

subsection \<open>Delivery of events\<close>

text \<open>
  C6. Whatever the server answers, so also when the delivery of an event fails,
  \<^verbatim>\<open>sendEvents\<close> posts the payload of every event that has one, in the
  order of the input; each request is in the trace with the outcome it
  completed with, and the line of \<^verbatim>\<open>core.error\<close> of a failed delivery comes
  right after it, before the next request.
\<close>

theorem sendEvents_posts_every_payload:
  "\<exists>t. sendEvents js srv url token events w = Inr (w @ t)
       \<and> posts t =
           map (\<lambda>e. \<lparr>verb = ''POST'', requestUrl = url @ ''/api/v1/events'',
                      requestHeaders = [(''Authorization'', ''Api-Token '' @ token),
                                        (''Content-Type'', ''application/json'')],
                      data = js (event_payload e)\<rparr>)
             (filter event_send events)
       \<and> failures_logged t"
  using sendEvents_trace [of js srv url token events w]
  unfolding post_request_def by auto

theorem sendEvents_posts_every_payload_witness:
  "\<exists>t. sendEvents print_type_and_title refusing_server ''https://abc.live.dynatrace.com''
          ''dt0c01'' [failing_event_send_test, unknown_type, successful_test] [] = Inr ([] @ t)
       \<and> posts t =
           [\<lparr>verb = ''POST'', requestUrl = ''https://abc.live.dynatrace.com/api/v1/events'',
             requestHeaders = [(''Authorization'', ''Api-Token dt0c01''),
                               (''Content-Type'', ''application/json'')],
             data = ''CUSTOM_INFO:Failing Event Send Test''\<rparr>,
            \<lparr>verb = ''POST'', requestUrl = ''https://abc.live.dynatrace.com/api/v1/events'',
             requestHeaders = [(''Authorization'', ''Api-Token dt0c01''),
                               (''Content-Type'', ''application/json'')],
             data = ''CUSTOM_INFO:Successful Test''\<rparr>]
       \<and> failures_logged t"
proof -
  have s: "filter event_send [failing_event_send_test, unknown_type, successful_test] =
      [failing_event_send_test, successful_test]"
    by (simp add: event_send_def create_event_structure_def failing_event_send_test_def
        unknown_type_def successful_test_def)
  have p1: "print_type_and_title (event_payload failing_event_send_test) =
      ''CUSTOM_INFO:Failing Event Send Test''"
    by (simp add: print_type_and_title_def event_payload_def create_event_structure_def
        failing_event_send_test_def optional_string_def)
  have p2: "print_type_and_title (event_payload successful_test) =
      ''CUSTOM_INFO:Successful Test''"
    by (simp add: print_type_and_title_def event_payload_def create_event_structure_def
        successful_test_def optional_string_def)
  from sendEvents_posts_every_payload [of print_type_and_title refusing_server
      "''https://abc.live.dynatrace.com''" "''dt0c01''"
      "[failing_event_send_test, unknown_type, successful_test]" "[]"]
  show ?thesis
    unfolding s by (simp add: p1 p2)
qed

text \<open>
  C10. An event of a supported type whose tags are absent or empty is not
  skipped: its payload is built with the empty array as
  \<^verbatim>\<open>attachRules.tagRule\<close>, and \<^verbatim>\<open>sendEvents\<close> posts it.
\<close>

theorem missing_tags_still_sent:
  assumes "e \<in> set events"
    and "type e \<in> set [''CUSTOM_INFO'', ''AVAILABILITY_EVENT'', ''ERROR_EVENT'',
           ''PERFORMANCE_EVENT'', ''RESOURCE_CONTENTION'', ''CUSTOM_DEPLOYMENT'']"
    and "tags e = None \<or> tags e = Some []"
  shows "event_send e
     \<and> property (property (event_payload e) ''attachRules'') ''tagRule'' = Arr []
     \<and> (\<exists>t. sendEvents js srv url token events w = Inr (w @ t)
           \<and> \<lparr>verb = ''POST'', requestUrl = url @ ''/api/v1/events'',
               requestHeaders = [(''Authorization'', ''Api-Token '' @ token),
                                 (''Content-Type'', ''application/json'')],
               data = js (event_payload e)\<rparr> \<in> set (posts t))"
proof (intro conjI)
  show s: "event_send e"
    by (rule supported_type_sends(1) [OF assms(2)])
  have "extract_tagging_rules e = []"
    using assms(3) by (auto simp add: extract_tagging_rules_def)
  then show "property (property (event_payload e) ''attachRules'') ''tagRule'' = Arr []"
    using supported_type_sends(2) [OF assms(2)] by simp
  from sendEvents_trace [of js srv url token events w] obtain t where t:
    "sendEvents js srv url token events w = Inr (w @ t)"
    "posts t = map (\<lambda>e. post_request (url @ ''/api/v1/events'') token ''application/json''
                                 (js (event_payload e)))
                       (filter event_send events)"
    by auto
  have "e \<in> set (filter event_send events)"
    using assms(1) s by simp
  then have "post_request (url @ ''/api/v1/events'') token ''application/json''
      (js (event_payload e)) \<in> set (posts t)"
    unfolding t(2) set_map by (rule imageI)
  then have "\<lparr>verb = ''POST'', requestUrl = url @ ''/api/v1/events'',
               requestHeaders = [(''Authorization'', ''Api-Token '' @ token),
                                 (''Content-Type'', ''application/json'')],
               data = js (event_payload e)\<rparr> \<in> set (posts t)"
    unfolding post_request_def .
  with t(1) show "\<exists>t. sendEvents js srv url token events w = Inr (w @ t)
           \<and> \<lparr>verb = ''POST'', requestUrl = url @ ''/api/v1/events'',
               requestHeaders = [(''Authorization'', ''Api-Token '' @ token),
                                 (''Content-Type'', ''application/json'')],
               data = js (event_payload e)\<rparr> \<in> set (posts t)"
    by (intro exI [of _ t] conjI)
qed

theorem missing_tags_still_sent_witness:
  "custom_deployment \<in> set [failing_event_send_test, custom_deployment]
   \<and> failing_event_send_test \<in> set [failing_event_send_test, custom_deployment]
   \<and> tags custom_deployment = None
   \<and> tags failing_event_send_test = Some []
   \<and> property (property (event_payload custom_deployment) ''attachRules'') ''tagRule'' = Arr []
   \<and> property (property (event_payload failing_event_send_test) ''attachRules'') ''tagRule'' = Arr []
   \<and> (\<exists>t. sendEvents print_type_and_title accepting_server ''https://abc.live.dynatrace.com''
             ''dt0c01'' [failing_event_send_test, custom_deployment] [] = Inr ([] @ t)
           \<and> \<lparr>verb = ''POST'', requestUrl = ''https://abc.live.dynatrace.com'' @ ''/api/v1/events'',
               requestHeaders = [(''Authorization'', ''Api-Token '' @ ''dt0c01''),
                                 (''Content-Type'', ''application/json'')],
               data = print_type_and_title (event_payload custom_deployment)\<rparr> \<in> set (posts t))
   \<and> (\<exists>t. sendEvents print_type_and_title accepting_server ''https://abc.live.dynatrace.com''
             ''dt0c01'' [failing_event_send_test, custom_deployment] [] = Inr ([] @ t)
           \<and> \<lparr>verb = ''POST'', requestUrl = ''https://abc.live.dynatrace.com'' @ ''/api/v1/events'',
               requestHeaders = [(''Authorization'', ''Api-Token '' @ ''dt0c01''),
                                 (''Content-Type'', ''application/json'')],
               data = print_type_and_title (event_payload failing_event_send_test)\<rparr>
                 \<in> set (posts t))"
proof -
  have m1: "custom_deployment \<in> set [failing_event_send_test, custom_deployment]"
    and m2: "failing_event_send_test \<in> set [failing_event_send_test, custom_deployment]"
    by simp_all
  have y1: "type custom_deployment \<in> set [''CUSTOM_INFO'', ''AVAILABILITY_EVENT'', ''ERROR_EVENT'',
           ''PERFORMANCE_EVENT'', ''RESOURCE_CONTENTION'', ''CUSTOM_DEPLOYMENT'']"
    by (simp add: custom_deployment_def)
  have y2: "type failing_event_send_test \<in> set [''CUSTOM_INFO'', ''AVAILABILITY_EVENT'',
           ''ERROR_EVENT'', ''PERFORMANCE_EVENT'', ''RESOURCE_CONTENTION'', ''CUSTOM_DEPLOYMENT'']"
    by (simp add: failing_event_send_test_def)
  have g1: "tags custom_deployment = None"
    by (simp add: custom_deployment_def)
  have g2: "tags failing_event_send_test = Some []"
    by (simp add: failing_event_send_test_def)
  note a = missing_tags_still_sent [OF m1 y1 disjI1 [OF g1], of print_type_and_title
      accepting_server "''https://abc.live.dynatrace.com''" "''dt0c01''" "[]"]
  note b = missing_tags_still_sent [OF m2 y2 disjI2 [OF g2], of print_type_and_title
      accepting_server "''https://abc.live.dynatrace.com''" "''dt0c01''" "[]"]
  from a have a2:
    "property (property (event_payload custom_deployment) ''attachRules'') ''tagRule'' = Arr []"
    and a3: "\<exists>t. sendEvents print_type_and_title accepting_server ''https://abc.live.dynatrace.com''
             ''dt0c01'' [failing_event_send_test, custom_deployment] [] = Inr ([] @ t)
           \<and> \<lparr>verb = ''POST'', requestUrl = ''https://abc.live.dynatrace.com'' @ ''/api/v1/events'',
               requestHeaders = [(''Authorization'', ''Api-Token '' @ ''dt0c01''),
                                 (''Content-Type'', ''application/json'')],
               data = print_type_and_title (event_payload custom_deployment)\<rparr> \<in> set (posts t)"
    by blast+
  from b have b2:
    "property (property (event_payload failing_event_send_test) ''attachRules'') ''tagRule'' = Arr []"
    and b3: "\<exists>t. sendEvents print_type_and_title accepting_server ''https://abc.live.dynatrace.com''
             ''dt0c01'' [failing_event_send_test, custom_deployment] [] = Inr ([] @ t)
           \<and> \<lparr>verb = ''POST'', requestUrl = ''https://abc.live.dynatrace.com'' @ ''/api/v1/events'',
               requestHeaders = [(''Authorization'', ''Api-Token '' @ ''dt0c01''),
                                 (''Content-Type'', ''application/json'')],
               data = print_type_and_title (event_payload failing_event_send_test)\<rparr>
                 \<in> set (posts t)"
    by blast+
  from m1 m2 g1 g2 a2 b2 a3 b3 show ?thesis
    by (intro conjI)
qed

subsection \<open>Delivery of metrics\<close>

text \<open>
  C7. For every list of metrics, the empty one too, one call of
  \<^verbatim>\<open>sendMetrics\<close> issues exactly one request: a \<^verbatim>\<open>POST\<close> to the endpoint
  followed by \<^verbatim>\<open>/api/v2/metrics/ingest\<close>, by a client whose headers are
  \<^verbatim>\<open>Authorization: Api-Token\<close> with the token and \<^verbatim>\<open>Content-Type:
  text/plain\<close>, with all the encoded lines as body.
\<close>

theorem sendMetrics_single_post:
  "\<exists>t. sendMetrics srv url token metrics w = Inr (w @ t)
       \<and> posts t =
           [\<lparr>verb = ''POST'', requestUrl = url @ ''/api/v2/metrics/ingest'',
             requestHeaders = [(''Authorization'', ''Api-Token '' @ token),
                               (''Content-Type'', ''text/plain'')],
             data = metrics_loop '''' metrics\<rparr>]"
  using sendMetrics_trace [of srv url token metrics w]
  unfolding post_request_def by auto

theorem sendMetrics_single_post_witness:
  "\<exists>t. sendMetrics accepting_server ''https://abc.live.dynatrace.com'' ''dt0c01''
          [\<lparr>metric = ''a'', value = ''1'', dimensions = None\<rparr>] [] = Inr ([] @ t)
       \<and> posts t =
           [\<lparr>verb = ''POST'',
             requestUrl = ''https://abc.live.dynatrace.com/api/v2/metrics/ingest'',
             requestHeaders = [(''Authorization'', ''Api-Token dt0c01''),
                               (''Content-Type'', ''text/plain'')],
             data = ''a 1'' @ [CHR 0x0A]\<rparr>]"
proof -
  have e: "metrics_loop '''' [\<lparr>metric = ''a'', value = ''1'', dimensions = None\<rparr>] =
      ''a 1'' @ [CHR 0x0A]"
    by code_simp
  from sendMetrics_single_post [of accepting_server "''https://abc.live.dynatrace.com''"
      "''dt0c01''" "[\<lparr>metric = ''a'', value = ''1'', dimensions = None\<rparr>]" "[]"]
  show ?thesis
    unfolding e by simp
qed

subsection \<open>The key sanitizers\<close>

text \<open>
  C8. \<^verbatim>\<open>safeMetricKey\<close> is a total function. For every string of UTF-16
  code units, every code unit of the result is one of \<^verbatim>\<open>.0-9a-z_-\<close>, none
  is an upper-case letter, the result is its own lower case, and sanitizing
  the result again changes nothing. This holds for every upper-case table and
  for every lower-case table of the runtime that gives no ASCII code unit at a
  position holding a code unit from 128 on other than U+0130 and U+212A; in
  Unicode these two are the only code points outside ASCII whose lower case
  has an ASCII code unit, and the definition writes them out.
\<close>

theorem safeMetricKey_sanitizes:
  assumes "\<forall>s i. i < length s \<and> 128 \<le> s ! i \<and> s ! i \<noteq> 0x130 \<and> s ! i \<noteq> 0x212A \<longrightarrow>
             (\<forall>x \<in> set (other s i). 128 \<le> x)"
  shows "set (safeMetricKey_utf16 other upper s)
           \<subseteq> set (map code_unit ''.0123456789abcdefghijklmnopqrstuvwxyz_-'')
   \<and> set (safeMetricKey_utf16 other upper s)
           \<inter> set (map code_unit ''ABCDEFGHIJKLMNOPQRSTUVWXYZ'') = {}
   \<and> toLowerCase_utf16 other (safeMetricKey_utf16 other upper s) =
       safeMetricKey_utf16 other upper s
   \<and> safeMetricKey_utf16 other upper (safeMetricKey_utf16 other upper s) =
       safeMetricKey_utf16 other upper s"
proof -
  define r where "r = safeMetricKey_utf16 other upper s"
  have u: "x = 46 \<or> (48 \<le> x \<and> x \<le> 57) \<or> (97 \<le> x \<and> x \<le> 122) \<or> x = 95 \<or> x = 45"
    if "x \<in> set r" for x
    using safeMetricKey_utf16_units [OF assms] that unfolding r_def by blast
  have 1: "set r \<subseteq> set (map code_unit ''.0123456789abcdefghijklmnopqrstuvwxyz_-'')"
  proof
    fix x assume "x \<in> set r"
    from u [OF this] show "x \<in> set (map code_unit ''.0123456789abcdefghijklmnopqrstuvwxyz_-'')"
      unfolding class_units_iff .
  qed
  have 2: "set r \<inter> set (map code_unit ''ABCDEFGHIJKLMNOPQRSTUVWXYZ'') = {}"
  proof (rule equals0I)
    fix x assume x: "x \<in> set r \<inter> set (map code_unit ''ABCDEFGHIJKLMNOPQRSTUVWXYZ'')"
    from IntD2 [OF x] have "65 \<le> x \<and> x \<le> 90"
      unfolding capital_units_iff .
    with u [OF IntD1 [OF x]] show False by arith
  qed
  have a: "\<forall>c \<in> set r. c < 128 \<and> \<not> (65 \<le> c \<and> c \<le> 90)"
  proof
    fix c assume "c \<in> set r"
    from u [OF this] show "c < 128 \<and> \<not> (65 \<le> c \<and> c \<le> 90)" by arith
  qed
  have m: "\<forall>c \<in> set r. class_matches_i_utf16 upper c"
  proof
    fix c assume "c \<in> set r"
    from u [OF this] show "class_matches_i_utf16 upper c"
      unfolding class_matches_i_utf16_iff by arith
  qed
  have 3: "toLowerCase_utf16 other r = r"
    unfolding toLowerCase_utf16_def by (rule toLowerCase_from_fixed [OF a])
  have 4: "safeMetricKey_utf16 other upper r = r"
    unfolding safeMetricKey_utf16_def 3 by (rule replace_outside_class_utf16_fixed [OF m])
  from 1 2 3 4 show ?thesis
    unfolding r_def by (intro conjI)
qed

theorem safeMetricKey_sanitizes_witness:
  "safeMetricKey_utf16 latin1_lower sample_upper
        [0x130, 0x212A, 0x41, 0xC9, 0x131, 0x17F, 0xDF, 0x2D, 0x39, 0xD801, 0xDC00] =
      map code_unit ''i_ka____-9__''
   \<and> set (map code_unit ''i_ka____-9__'')
        \<subseteq> set (map code_unit ''.0123456789abcdefghijklmnopqrstuvwxyz_-'')
   \<and> safeMetricKey_utf16 latin1_lower sample_upper (map code_unit ''i_ka____-9__'') =
      map code_unit ''i_ka____-9__''"
proof -
  have h: "\<forall>s i. i < length s \<and> 128 \<le> s ! i \<and> s ! i \<noteq> 0x130 \<and> s ! i \<noteq> 0x212A \<longrightarrow>
             (\<forall>x \<in> set (latin1_lower s i). 128 \<le> x)"
    by (simp add: latin1_lower_def)
  have e: "safeMetricKey_utf16 latin1_lower sample_upper
        [0x130, 0x212A, 0x41, 0xC9, 0x131, 0x17F, 0xDF, 0x2D, 0x39, 0xD801, 0xDC00] =
      map code_unit ''i_ka____-9__''"
    by (simp add: safeMetricKey_utf16_def replace_outside_class_utf16_def
        class_matches_i_utf16_iff toLowerCase_utf16_def toLowerCase_at_def latin1_lower_def
        code_unit_def)
  from safeMetricKey_sanitizes [OF h, of sample_upper
      "[0x130, 0x212A, 0x41, 0xC9, 0x131, 0x17F, 0xDF, 0x2D, 0x39, 0xD801, 0xDC00]"]
  have "set (map code_unit ''i_ka____-9__'')
        \<subseteq> set (map code_unit ''.0123456789abcdefghijklmnopqrstuvwxyz_-'')"
    and "safeMetricKey_utf16 latin1_lower sample_upper (map code_unit ''i_ka____-9__'') =
      map code_unit ''i_ka____-9__''"
    unfolding e by blast+
  with e show ?thesis
    by (intro conjI)
qed

text \<open>
  C9. The sanitizer of metric names and the sanitizer of dimension keys are
  the same function: \<^verbatim>\<open>safeMetricKey\<close> and \<^verbatim>\<open>safeDimKey\<close> agree on every
  string.
\<close>

theorem safeMetricKey_eq_safeDimKey: "safeMetricKey s = safeDimKey s"
  by (simp add: safeMetricKey_def safeDimKey_def)

end
